theory Spec2Isabelle
  imports Complex_Main "HOL-Library.AList" "HOL-Library.Sublist"
begin

section \<open>Python strings\<close>

text \<open>
  A Python \<open>str\<close> is a sequence of Unicode code points, so it is modelled as a list of
  natural numbers.  \<open>ustr\<close> turns an ASCII literal into such a list; code points beyond
  ASCII are written as numbers (\<open>205\<close> is U+00CD, \<open>237\<close> is U+00ED).
\<close>

type_synonym pystr = "nat list"

definition ustr :: "string \<Rightarrow> pystr" where
  "ustr s = map of_char s"

text \<open>\<open>str.isspace\<close> for one code point: the characters \<open>str.strip()\<close> removes.\<close>

definition py_isspace :: "nat \<Rightarrow> bool" where
  "py_isspace c =
     ((9 \<le> c \<and> c \<le> 13) \<or> (28 \<le> c \<and> c \<le> 32) \<or> c = 133 \<or> c = 160 \<or> c = 5760 \<or>
      (8192 \<le> c \<and> c \<le> 8202) \<or> c = 8232 \<or> c = 8233 \<or> c = 8239 \<or> c = 8287 \<or>
      c = 12288)"

definition py_strip :: "pystr \<Rightarrow> pystr" where
  "py_strip s = rev (dropWhile py_isspace (rev (dropWhile py_isspace s)))"

text \<open>
  \<open>str.upper()\<close> maps every code point on its own (the full, context-free upper-case
  mapping, which may give more than one code point).  The table is written out for ASCII
  and Latin-1; for a code point from 256 on, it is the parameter \<open>U\<close>, the rest of the
  Unicode table.
\<close>

definition upper_cp :: "(nat \<Rightarrow> pystr) \<Rightarrow> nat \<Rightarrow> pystr" where
  "upper_cp U c =
     (if 97 \<le> c \<and> c \<le> 122 then [c - 32]
      else if c < 128 then [c]
      else if c = 181 then [924]
      else if c = 223 then [83, 83]
      else if 224 \<le> c \<and> c \<le> 254 \<and> c \<noteq> 247 then [c - 32]
      else if c = 255 then [376]
      else if c < 256 then [c]
      else U c)"

definition py_upper :: "(nat \<Rightarrow> pystr) \<Rightarrow> pystr \<Rightarrow> pystr" where
  "py_upper U s = concat (map (upper_cp U) s)"


text \<open>\<open>str(n)\<close> for a Python integer.\<close>

function str_nat :: "nat \<Rightarrow> pystr" where
  "str_nat n = (if n < 10 then [48 + n] else str_nat (n div 10) @ [48 + n mod 10])"
  by pat_completeness auto
termination
  by (relation "measure (\<lambda>n. n)") auto

declare str_nat.simps [simp del]

definition str_int :: "int \<Rightarrow> pystr" where
  "str_int i = (if i < 0 then 45 # str_nat (nat (- i)) else str_nat (nat i))"

text \<open>\<open>sep.join(xs)\<close>.\<close>

fun py_join :: "pystr \<Rightarrow> pystr list \<Rightarrow> pystr" where
  "py_join sep [] = []"
| "py_join sep [x] = x"
| "py_join sep (x # y # ys) = x @ sep @ py_join sep (y # ys)"

definition startswith :: "pystr \<Rightarrow> pystr \<Rightarrow> bool" where
  "startswith s p = (take (length p) s = p)"

definition endswith :: "pystr \<Rightarrow> pystr \<Rightarrow> bool" where
  "endswith s p = (length p \<le> length s \<and> drop (length s - length p) s = p)"

section \<open>excel.py: cell values, boolean parsing and row validation\<close>

text \<open>
  A spreadsheet cell or dictionary value, as far as the code looks at it: \<open>None\<close>, the
  missing value NaN, a string, an integer or a boolean.
\<close>

datatype cell = PyNone | NaN | PyStr pystr | PyInt int | PyBool bool

text \<open>\<open>pd.isna(value)\<close>, \<open>bool(value)\<close> and \<open>str(value)\<close>.\<close>

fun isna :: "cell \<Rightarrow> bool" where
  "isna PyNone = True"
| "isna NaN = True"
| "isna _ = False"

fun truthy :: "cell \<Rightarrow> bool" where
  "truthy PyNone = False"
| "truthy NaN = True"
| "truthy (PyStr s) = (s \<noteq> [])"
| "truthy (PyInt n) = (n \<noteq> 0)"
| "truthy (PyBool b) = b"

fun py_str :: "cell \<Rightarrow> pystr" where
  "py_str PyNone = ustr ''None''"
| "py_str NaN = ustr ''nan''"
| "py_str (PyStr s) = s"
| "py_str (PyInt n) = str_int n"
| "py_str (PyBool b) = (if b then ustr ''True'' else ustr ''False'')"

definition TRUE_VALUES :: "pystr list" where
  "TRUE_VALUES =
     [ustr ''SI'', ustr ''S'' @ [205], ustr ''S'', ustr ''YES'', ustr ''Y'', ustr ''1'',
      ustr ''TRUE'', ustr ''VERDADERO'']"

definition parse_boolean :: "(nat \<Rightarrow> pystr) \<Rightarrow> cell \<Rightarrow> bool" where
  "parse_boolean U v =
     (if isna v then False
      else py_upper U (py_strip (py_str v)) \<in> set TRUE_VALUES)"

text \<open>
  A row handed to \<open>validate_row\<close> is a dictionary from column names to values.
  \<open>row.get(k)\<close> gives \<open>None\<close> for a missing key.  The test
  \<open>not row.get(k) or pd.isna(row[k])\<close> reads \<open>row[k]\<close> only when \<open>row.get(k)\<close> is
  truthy, so the key is present there and no \<open>KeyError\<close> can occur.
\<close>

type_synonym row = "string \<rightharpoonup> cell"

definition row_get :: "row \<Rightarrow> string \<Rightarrow> cell" where
  "row_get r k = (case r k of None \<Rightarrow> PyNone | Some v \<Rightarrow> v)"

definition field_empty :: "row \<Rightarrow> string \<Rightarrow> bool" where
  "field_empty r k = (\<not> truthy (row_get r k) \<or> isna (row_get r k))"

definition vacio :: pystr where
  "vacio = ustr '' vac'' @ [237] @ ustr ''o''"

definition conyugue_msg :: "string \<Rightarrow> pystr" where
  "conyugue_msg k = ustr ''LLevaConyugue=True pero '' @ ustr k @ vacio"

text \<open>The list \<open>errors\<close> that \<open>validate_row\<close> builds, in the order of its checks.\<close>

definition row_errors :: "row \<Rightarrow> pystr list" where
  "row_errors r =
     (if field_empty r ''PrimerNombre'' then [ustr ''PrimerNombre'' @ vacio] else []) @
     (if field_empty r ''PrimerApellido'' then [ustr ''PrimerApellido'' @ vacio] else []) @
     (if field_empty r ''QR'' then [ustr ''QR'' @ vacio] else []) @
     (if truthy (row_get r ''LLevaConyugue'') then
        (if field_empty r ''PrimerNombreConyugue''
         then [conyugue_msg ''PrimerNombreConyugue''] else []) @
        (if field_empty r ''PrimerApellidoConyugue''
         then [conyugue_msg ''PrimerApellidoConyugue''] else []) @
        (if field_empty r ''QR_Conyugue'' then [conyugue_msg ''QR_Conyugue''] else [])
      else [])"

definition validate_row :: "row \<Rightarrow> int \<Rightarrow> pystr option" where
  "validate_row r row_index =
     (let errors = row_errors r in
      if errors \<noteq> []
      then Some (ustr ''Fila '' @ str_int (row_index + 2) @ ustr '': '' @
                 py_join (ustr ''; '') errors)
      else None)"

text \<open>
  The loop of \<open>read_attendees\<close> over the rows of the data frame, once the required
  columns are known to be there.  A raw row gives a cell for every column; the entry
  built from it holds strings (the empty string for a missing value) and the parsed
  boolean.  Rows that fail validation are logged and left out.
\<close>

definition str_or_empty :: "cell \<Rightarrow> cell" where
  "str_or_empty v = (if \<not> isna v then PyStr (py_str v) else PyStr [])"

definition make_entry :: "(nat \<Rightarrow> pystr) \<Rightarrow> (string \<Rightarrow> cell) \<Rightarrow> row" where
  "make_entry U raw =
     [''Puesto'' \<mapsto> str_or_empty (raw ''Puesto''),
      ''PrimerNombre'' \<mapsto> str_or_empty (raw ''PrimerNombre''),
      ''PrimerApellido'' \<mapsto> str_or_empty (raw ''PrimerApellido''),
      ''Oficina'' \<mapsto> str_or_empty (raw ''Oficina''),
      ''Tour'' \<mapsto> str_or_empty (raw ''Tour''),
      ''Mesa'' \<mapsto> str_or_empty (raw ''Mesa''),
      ''LLevaConyugue'' \<mapsto> PyBool (parse_boolean U (raw ''LLevaConyugue'')),
      ''PrimerNombreConyugue'' \<mapsto> str_or_empty (raw ''PrimerNombreConyugue''),
      ''PrimerApellidoConyugue'' \<mapsto> str_or_empty (raw ''PrimerApellidoConyugue''),
      ''QR'' \<mapsto> str_or_empty (raw ''QR''),
      ''QR_Conyugue'' \<mapsto> str_or_empty (raw ''QR_Conyugue'')]"

fun attendees_from :: "(nat \<Rightarrow> pystr) \<Rightarrow> int \<Rightarrow> (string \<Rightarrow> cell) list \<Rightarrow> row list" where
  "attendees_from U idx [] = []"
| "attendees_from U idx (raw # rest) =
     (let entry = make_entry U raw in
      case validate_row entry idx of
        Some error_msg \<Rightarrow> attendees_from U (idx + 1) rest
      | None \<Rightarrow> entry # attendees_from U (idx + 1) rest)"

definition read_attendees :: "(nat \<Rightarrow> pystr) \<Rightarrow> (string \<Rightarrow> cell) list \<Rightarrow> row list" where
  "read_attendees U rows = attendees_from U 0 rows"

section \<open>qrs.py: the world the resolver runs in\<close>

text \<open>
  The file contents and the images are byte strings.

  An exception is a value.  \<open>exc\<close> holds the exceptions that the calls made by the
  code raise (the operating system's \<open>OSError\<close>s, \<open>ValueError\<close>, and any other class
  deriving from \<open>Exception\<close>), each with its text; \<open>error\<close> adds the one exception that
  \<open>get_qr_image\<close> raises itself.  Interrupts are not modelled.
\<close>

type_synonym bytes = "nat list"

datatype exc = OSError pystr | ValueError pystr | OtherError pystr

datatype error = ServerUnreachable pystr | Library exc

text \<open>
  The file system is a store of regular files (an association list from the path, as
  the code builds it, to the content; the first binding of a path counts) and a list
  of directories.  A call of the operating system can fail: \<open>refused\<close> gives, for a
  path, the exception with which every attempt to open, create or remove it ends (a
  missing parent directory, missing permissions).  Where the store itself decides a
  failure (a file that is not there, a directory in the place of a file), the
  exception is an \<open>OSError\<close> that names the path.  Two logs record what a run did: the
  URLs requested from the network and the files written.
\<close>

record world =
  files :: "(pystr \<times> bytes) list"
  dirs :: "pystr list"
  refused :: "(pystr \<times> exc) list"
  requests :: "pystr list"
  written :: "(pystr \<times> bytes) list"

text \<open>
  What the code cannot compute itself.  The answer to a request, given the requests
  made before, is a body (a response with a success status), a failure that
  \<open>download_qr_from_url\<close> catches (a timeout, any other \<open>RequestException\<close>, an error
  status turned into one by \<open>raise_for_status\<close>), or an exception of another class,
  which it does not catch.  The QR library, called in \<open>generate_qr_local\<close>, gives the
  PNG bytes of the image or raises (data beyond the capacity of a QR code).
\<close>

datatype response = Body bytes | RequestFailed | Escapes exc

record env =
  server :: "pystr list \<Rightarrow> pystr \<Rightarrow> response"
  generate_qr_local :: "pystr \<Rightarrow> exc + bytes"

datatype strategy = Download | Cache

text \<open>
  \<open>str(e)\<close> of a raised exception.  The message of the resolver's own exception is the
  source's; an exception of a library call carries its text.
\<close>

fun str_of_exc :: "exc \<Rightarrow> pystr" where
  "str_of_exc (OSError msg) = msg"
| "str_of_exc (ValueError msg) = msg"
| "str_of_exc (OtherError msg) = msg"

fun str_exc :: "error \<Rightarrow> pystr" where
  "str_exc (ServerUnreachable codigo) =
     ustr '' ERROR CR'' @ [205] @
     ustr ''TICO: No se pudo descargar el QR del servidor para c'' @ [243] @
     ustr ''digo '' @ [39] @ codigo @ [39] @
     ustr ''. Este QR es necesario para el escaneo en el evento. '' @
     ustr ''Por favor verifica tu conexi'' @ [243] @
     ustr ''n a internet y que el servidor est'' @ [233] @ ustr '' disponible.''"
| "str_exc (Library x) = str_of_exc x"

text \<open>
  A path that the operating system cannot take: it holds the character U+0000 or a
  surrogate code point that the file-system encoding (UTF-8 with \<open>surrogateescape\<close>)
  does not encode.  \<open>os.path.isfile\<close> and \<open>os.path.exists\<close> answer \<open>False\<close> for such a
  path; \<open>open\<close>, \<open>os.makedirs\<close> and \<open>unlink\<close> raise \<open>ValueError\<close>.
\<close>

definition unrepresentable :: "pystr \<Rightarrow> bool" where
  "unrepresentable p =
     (\<exists>c\<in>set p. c = 0 \<or> (55296 \<le> c \<and> c \<le> 57343 \<and> \<not> (56448 \<le> c \<and> c \<le> 56575)))"

definition refusal :: "world \<Rightarrow> pystr \<Rightarrow> exc option" where
  "refusal w p = (if unrepresentable p then Some (ValueError p) else map_of (refused w) p)"

definition os_path_isfile :: "world \<Rightarrow> pystr \<Rightarrow> bool" where
  "os_path_isfile w p = (\<not> unrepresentable p \<and> map_of (files w) p \<noteq> None)"

definition os_path_isdir :: "world \<Rightarrow> pystr \<Rightarrow> bool" where
  "os_path_isdir w p = (\<not> unrepresentable p \<and> p \<in> set (dirs w))"

definition os_path_exists :: "world \<Rightarrow> pystr \<Rightarrow> bool" where
  "os_path_exists w p = (os_path_isfile w p \<or> os_path_isdir w p)"

text \<open>\<open>os.path.join\<close> of two components (POSIX).\<close>

definition os_path_join :: "pystr \<Rightarrow> pystr \<Rightarrow> pystr" where
  "os_path_join a b =
     (if startswith b (ustr ''/'') then b
      else if a = [] \<or> endswith a (ustr ''/'') then a @ b
      else a @ ustr ''/'' @ b)"

text \<open>
  \<open>os.makedirs(d, exist_ok=True)\<close>: nothing happens when the directory is there;
  the empty path and the path of a regular file raise.
\<close>

definition os_makedirs :: "world \<Rightarrow> pystr \<Rightarrow> error + world" where
  "os_makedirs w d =
     (if os_path_isdir w d then Inr w
      else
        (case refusal w d of
           Some x \<Rightarrow> Inl (Library x)
         | None \<Rightarrow>
             if d = [] \<or> os_path_isfile w d then Inl (Library (OSError d))
             else Inr (w\<lparr>dirs := d # dirs w\<rparr>)))"

text \<open>
  \<open>open(p, 'rb').read()\<close> and \<open>open(p, 'wb').write(b)\<close>: a path that is no regular
  file cannot be read, a directory cannot be written.
\<close>

definition open_rb :: "world \<Rightarrow> pystr \<Rightarrow> error + bytes" where
  "open_rb w p =
     (case refusal w p of
        Some x \<Rightarrow> Inl (Library x)
      | None \<Rightarrow>
          (case map_of (files w) p of
             None \<Rightarrow> Inl (Library (OSError p))
           | Some b \<Rightarrow> Inr b))"

definition open_wb :: "world \<Rightarrow> pystr \<Rightarrow> bytes \<Rightarrow> error + world" where
  "open_wb w p b =
     (case refusal w p of
        Some x \<Rightarrow> Inl (Library x)
      | None \<Rightarrow>
          if p \<in> set (dirs w) then Inl (Library (OSError p))
          else Inr (w\<lparr>files := AList.update p b (files w), written := written w @ [(p, b)]\<rparr>))"

text \<open>\<open>Path.unlink()\<close>.\<close>

definition unlink :: "world \<Rightarrow> pystr \<Rightarrow> error + world" where
  "unlink w p =
     (case refusal w p of
        Some x \<Rightarrow> Inl (Library x)
      | None \<Rightarrow>
          if map_of (files w) p = None then Inl (Library (OSError p))
          else Inr (w\<lparr>files := AList.delete p (files w)\<rparr>))"

text \<open>\<open>requests.get(url)\<close> followed by \<open>raise_for_status()\<close>: the request is logged.\<close>

definition http_get :: "env \<Rightarrow> world \<Rightarrow> pystr \<Rightarrow> response \<times> world" where
  "http_get e w url = (server e (requests w) url, w\<lparr>requests := requests w @ [url]\<rparr>)"

section \<open>qrs.py: download, resolution, prefetch and cache cleaning\<close>

definition MAX_RETRIES :: nat where
  "MAX_RETRIES = 2"

definition QR_BASE_URL :: "pystr \<Rightarrow> pystr" where
  "QR_BASE_URL codigo =
     ustr ''https://evento-directores.qualitaseventos.mx/downloadQr/'' @ codigo @ ustr ''/''"

text \<open>
  The loop of \<open>download_qr_from_url\<close>, by the number of attempts left: the first
  body is returned as it is (an empty one too), a caught failure is followed by the
  next attempt, \<open>None\<close> is returned when all attempts have failed, and an exception
  that is not caught leaves the function.  The pause between attempts is not
  modelled.
\<close>

fun download_qr_from_url :: "env \<Rightarrow> world \<Rightarrow> pystr \<Rightarrow> nat
    \<Rightarrow> (error + bytes option) \<times> world" where
  "download_qr_from_url e w url 0 = (Inr None, w)"
| "download_qr_from_url e w url (Suc retries) =
     (case http_get e w url of
        (Body content, w') \<Rightarrow> (Inr (Some content), w')
      | (RequestFailed, w') \<Rightarrow> download_qr_from_url e w' url retries
      | (Escapes x, w') \<Rightarrow> (Inl (Library x), w'))"

text \<open>\<open>sub in s\<close>, \<open>s.split(sep)[-1]\<close>, \<open>s.rstrip('/')\<close> and the two \<open>replace\<close> calls.\<close>

fun contains :: "pystr \<Rightarrow> pystr \<Rightarrow> bool" where
  "contains [] sub = (sub = [])"
| "contains (c # cs) sub = (startswith (c # cs) sub \<or> contains cs sub)"

text \<open>
  The last piece of a split, scanning from the left for occurrences of the separator
  that do not overlap: \<open>skip\<close> counts the characters of a found separator still to
  pass over, \<open>cur\<close> is the piece collected since the last separator.
\<close>

fun last_piece :: "pystr \<Rightarrow> nat \<Rightarrow> pystr \<Rightarrow> pystr \<Rightarrow> pystr" where
  "last_piece sep skip [] cur = cur"
| "last_piece sep (Suc skip) (c # cs) cur = last_piece sep skip cs []"
| "last_piece sep 0 (c # cs) cur =
     (if startswith (c # cs) sep then last_piece sep (length sep - 1) cs []
      else last_piece sep 0 cs (cur @ [c]))"

definition split_last :: "pystr \<Rightarrow> pystr \<Rightarrow> pystr" where
  "split_last s sep = last_piece sep 0 s []"

definition rstrip_slash :: "pystr \<Rightarrow> pystr" where
  "rstrip_slash s = rev (dropWhile (\<lambda>c. c = 47) (rev s))"

definition sanitize_url :: "pystr \<Rightarrow> pystr" where
  "sanitize_url s = filter (\<lambda>c. c \<noteq> 58) (map (\<lambda>c. if c = 47 then 95 else c) s)"

text \<open>The cache key \<open>codigo\<close> and the URL that \<open>get_qr_image\<close> derives from its argument.\<close>

definition codigo_url :: "pystr \<Rightarrow> pystr \<times> pystr" where
  "codigo_url qr_code_or_path =
     (if startswith qr_code_or_path (ustr ''http://'') \<or>
         startswith qr_code_or_path (ustr ''https://'')
      then
        (if contains qr_code_or_path (ustr ''/downloadQr/'')
         then (rstrip_slash (split_last qr_code_or_path (ustr ''/downloadQr/'')),
               qr_code_or_path)
         else (sanitize_url qr_code_or_path, qr_code_or_path))
      else (qr_code_or_path, QR_BASE_URL qr_code_or_path))"

definition valid_path :: "pystr \<Rightarrow> pystr \<Rightarrow> pystr" where
  "valid_path qrs_dir codigo = os_path_join qrs_dir (codigo @ ustr ''.png'')"

definition local_path :: "pystr \<Rightarrow> pystr \<Rightarrow> pystr" where
  "local_path qrs_dir codigo = os_path_join qrs_dir (codigo @ ustr ''_local.png'')"

text \<open>
  The end of \<open>get_qr_image\<close>, reached when the download gave no bytes: the error when
  the fallback is not allowed, the locally generated image otherwise, stored under
  the \<open>_local\<close> name when the strategy is the cache.
\<close>

definition fallback :: "env \<Rightarrow> world \<Rightarrow> pystr \<Rightarrow> strategy \<Rightarrow> pystr \<Rightarrow> pystr \<Rightarrow> bool
    \<Rightarrow> (error + bytes) \<times> world" where
  "fallback e w qr_code_or_path strat qrs_dir codigo allow_fallback =
     (if \<not> allow_fallback then (Inl (ServerUnreachable codigo), w)
      else
        (case generate_qr_local e qr_code_or_path of
           Inl x \<Rightarrow> (Inl (Library x), w)
         | Inr qr_buffer \<Rightarrow>
             (if strat = Cache then
                (case open_wb w (local_path qrs_dir codigo) qr_buffer of
                   Inl err \<Rightarrow> (Inl err, w)
                 | Inr w' \<Rightarrow> (Inr qr_buffer, w'))
              else (Inr qr_buffer, w))))"

text \<open>
  Two steps of \<open>get_qr_image\<close> under their own names.  \<open>ensure_dir\<close> is the call of
  \<open>os.makedirs\<close> that the cache strategy makes first.  \<open>cache_hit\<close> is the condition
  under which the cached file is returned: the strategy is the cache, the path
  \<open>{codigo}.png\<close> exists, and it does not end with \<open>_local.png\<close>.
\<close>

definition ensure_dir :: "world \<Rightarrow> strategy \<Rightarrow> pystr \<Rightarrow> error + world" where
  "ensure_dir w strat qrs_dir = (if strat = Cache then os_makedirs w qrs_dir else Inr w)"

definition cache_hit :: "world \<Rightarrow> strategy \<Rightarrow> pystr \<Rightarrow> pystr \<Rightarrow> bool" where
  "cache_hit w strat qrs_dir codigo =
     (strat = Cache \<and> os_path_exists w (valid_path qrs_dir codigo) \<and>
      \<not> endswith (valid_path qrs_dir codigo) (ustr ''_local.png''))"

text \<open>
  \<open>get_qr_image\<close>.  The result is the image or the exception that leaves the call,
  with the world as the call leaves it.  \<open>if qr_bytes:\<close> is false for \<open>None\<close> and for
  an empty body.
\<close>

definition get_qr_image :: "env \<Rightarrow> world \<Rightarrow> pystr \<Rightarrow> strategy \<Rightarrow> pystr \<Rightarrow> bool
    \<Rightarrow> (error + bytes) \<times> world" where
  "get_qr_image e w qr_code_or_path strat qrs_dir allow_fallback =
     (if os_path_isfile w qr_code_or_path then (open_rb w qr_code_or_path, w)
      else
        (case codigo_url qr_code_or_path of (codigo, url) \<Rightarrow>
          (case ensure_dir w strat qrs_dir of
             Inl err \<Rightarrow> (Inl err, w)
           | Inr w1 \<Rightarrow>
               (if cache_hit w1 strat qrs_dir codigo
                then (open_rb w1 (valid_path qrs_dir codigo), w1)
                else
                  (case download_qr_from_url e w1 url MAX_RETRIES of
                     (Inl err, w2) \<Rightarrow> (Inl err, w2)
                   | (Inr qr_bytes, w2) \<Rightarrow>
                       (case qr_bytes of
                          Some b \<Rightarrow>
                            (if b \<noteq> [] then
                               (if strat = Cache then
                                  (case open_wb w2 (valid_path qrs_dir codigo) b of
                                     Inl err \<Rightarrow> (Inl err, w2)
                                   | Inr w3 \<Rightarrow> (Inr b, w3))
                                else (Inr b, w2))
                             else fallback e w2 qr_code_or_path strat qrs_dir codigo
                                    allow_fallback)
                        | None \<Rightarrow>
                            fallback e w2 qr_code_or_path strat qrs_dir codigo
                              allow_fallback))))))"

text \<open>
  \<open>prefetch_qrs\<close>.  \<open>fetch_single\<close> catches every exception of the resolver and
  returns its text in place of the image.  The worker threads are run here one after
  the other, in the order of the list; \<open>ThreadPoolExecutor\<close> raises \<open>ValueError\<close>
  for a pool of no workers.
\<close>

definition fetch_single :: "env \<Rightarrow> world \<Rightarrow> pystr \<Rightarrow> strategy \<Rightarrow> pystr \<Rightarrow> bool
    \<Rightarrow> (pystr \<times> (pystr + bytes)) \<times> world" where
  "fetch_single e w code strat qrs_dir allow_fallback =
     (case get_qr_image e w code strat qrs_dir allow_fallback of
        (Inr qr_buffer, w') \<Rightarrow> ((code, Inr qr_buffer), w')
      | (Inl err, w') \<Rightarrow> ((code, Inl (str_exc err)), w'))"

fun prefetch_loop :: "env \<Rightarrow> world \<Rightarrow> pystr list \<Rightarrow> strategy \<Rightarrow> pystr \<Rightarrow> bool
    \<Rightarrow> (pystr \<rightharpoonup> pystr + bytes) \<Rightarrow> (pystr \<rightharpoonup> pystr + bytes) \<times> world" where
  "prefetch_loop e w [] strat qrs_dir allow_fallback results = (results, w)"
| "prefetch_loop e w (c # codes) strat qrs_dir allow_fallback results =
     (case fetch_single e w c strat qrs_dir allow_fallback of
        ((code, result), w') \<Rightarrow>
          prefetch_loop e w' codes strat qrs_dir allow_fallback (results(code \<mapsto> result)))"


text \<open>
  \<open>clean_cache\<close>.  \<open>Path(qrs_dir).glob("*.png")\<close> lists the entries of the directory
  whose name ends in \<open>.png\<close>: the paths that \<open>os.path.join\<close> builds from the
  directory and such a name; a path that is no directory has no entries.
  \<open>time.time()\<close> is read once in each call and is the argument \<open>current_time\<close>;
  \<open>stat\<close> gives the modification time of an entry or raises, and that exception is
  not caught; an exception of \<open>unlink\<close> is caught.  Times are real numbers.
\<close>

definition dir_prefix :: "pystr \<Rightarrow> pystr" where
  "dir_prefix qrs_dir =
     (if qrs_dir = [] \<or> endswith qrs_dir (ustr ''/'') then qrs_dir else qrs_dir @ ustr ''/'')"

definition is_png_in :: "pystr \<Rightarrow> pystr \<Rightarrow> bool" where
  "is_png_in qrs_dir p =
     (let name = drop (length (dir_prefix qrs_dir)) p in
      startswith p (dir_prefix qrs_dir) \<and> name \<noteq> [] \<and> 47 \<notin> set name \<and>
      endswith name (ustr ''.png''))"

definition glob_png :: "world \<Rightarrow> pystr \<Rightarrow> pystr list" where
  "glob_png w qrs_dir =
     (if os_path_isdir w qrs_dir
      then filter (is_png_in qrs_dir) (map fst (files w) @ dirs w)
      else [])"

fun clean_loop :: "real \<Rightarrow> (pystr \<Rightarrow> exc + real) \<Rightarrow> real \<Rightarrow> world \<Rightarrow> pystr list \<Rightarrow> nat
    \<Rightarrow> (error + nat) \<times> world" where
  "clean_loop current_time stat max_age_seconds w [] deleted = (Inr deleted, w)"
| "clean_loop current_time stat max_age_seconds w (file_path # rest) deleted =
     (case stat file_path of
        Inl x \<Rightarrow> (Inl (Library x), w)
      | Inr st_mtime \<Rightarrow>
          (if current_time - st_mtime > max_age_seconds then
             (case unlink w file_path of
                Inr w' \<Rightarrow> clean_loop current_time stat max_age_seconds w' rest (deleted + 1)
              | Inl err \<Rightarrow> clean_loop current_time stat max_age_seconds w rest deleted)
           else clean_loop current_time stat max_age_seconds w rest deleted))"

definition clean_cache :: "real \<Rightarrow> (pystr \<Rightarrow> exc + real) \<Rightarrow> world \<Rightarrow> pystr \<Rightarrow> int
    \<Rightarrow> (error + nat) \<times> world" where
  "clean_cache current_time stat w qrs_dir max_age_days =
     (if \<not> os_path_exists w qrs_dir then (Inr 0, w)
      else clean_loop current_time stat (of_int (max_age_days * 24 * 60 * 60)) w
             (glob_png w qrs_dir) 0)"

section \<open>Examples\<close>

text \<open>
  Concrete environments and worlds on which the theorems below are instantiated: a
  server whose every answer is a failure and one that always answers with a body of
  four bytes, both with a QR library that puts a zero byte before the data; an empty
  store; a cache holding the downloaded image of \<open>QR001\<close>; a cache holding only the
  locally generated image of \<open>A\<close>; a cache holding both images of \<open>QR001\<close>; a cache
  directory \<open>qrs\<close> without the subdirectory \<open>qrs/A\<close>, so that the file
  \<open>qrs/A/B.png\<close> cannot be created; and a world in which \<open>qrs\<close> is a regular file,
  so that no directory of that name can be made.
\<close>

definition server_down :: env where
  "server_down =
     \<lparr>server = (\<lambda>history url. RequestFailed), generate_qr_local = (\<lambda>data. Inr (0 # data))\<rparr>"

definition server_up :: env where
  "server_up =
     \<lparr>server = (\<lambda>history url. Body [137, 80, 78, 71]),
      generate_qr_local = (\<lambda>data. Inr (0 # data))\<rparr>"

definition empty_world :: world where
  "empty_world = \<lparr>files = [], dirs = [], refused = [], requests = [], written = []\<rparr>"

definition cached_world :: world where
  "cached_world =
     empty_world\<lparr>files := [(ustr ''qrs/QR001.png'', [1, 2, 3])], dirs := [ustr ''qrs'']\<rparr>"

definition fallback_only_world :: world where
  "fallback_only_world =
     empty_world\<lparr>files := [(ustr ''qrs/A_local.png'', [9])], dirs := [ustr ''qrs'']\<rparr>"

definition both_world :: world where
  "both_world =
     empty_world\<lparr>files := [(ustr ''qrs/QR001.png'', [1, 2, 3]),
                            (ustr ''qrs/QR001_local.png'', [9])],
                  dirs := [ustr ''qrs'']\<rparr>"

definition unwritable_world :: world where
  "unwritable_world =
     empty_world\<lparr>dirs := [ustr ''qrs''],
                  refused := [(ustr ''qrs/A/B.png'', OSError (ustr ''No such file or directory''))]\<rparr>"

definition blocked_dir_world :: world where
  "blocked_dir_world = empty_world\<lparr>files := [(ustr ''qrs'', [0])]\<rparr>"

text \<open>
  Rows for the validation: the row of the specification's example, with an empty first
  name; a row with four violations; and two rows of a sheet, the second of which claims
  a companion and has no companion QR.  An empty cell of the sheet is NaN.
\<close>

definition garcia_row :: row where
  "garcia_row =
     [''PrimerNombre'' \<mapsto> PyStr [],
      ''PrimerApellido'' \<mapsto> PyStr (ustr ''Garc'' @ [237] @ ustr ''a''),
      ''QR'' \<mapsto> PyStr (ustr ''QR9'')]"

definition lonely_row :: row where
  "lonely_row =
     [''PrimerNombre'' \<mapsto> PyStr [],
      ''PrimerApellido'' \<mapsto> PyStr (ustr ''Garc'' @ [237] @ ustr ''a''),
      ''QR'' \<mapsto> PyStr [],
      ''LLevaConyugue'' \<mapsto> PyBool True,
      ''PrimerNombreConyugue'' \<mapsto> PyStr (ustr ''Ana''),
      ''QR_Conyugue'' \<mapsto> PyStr []]"

definition sheet_row :: "(string \<times> cell) list \<Rightarrow> string \<Rightarrow> cell" where
  "sheet_row cells column = (case map_of cells column of Some v \<Rightarrow> v | None \<Rightarrow> NaN)"

definition juan :: "string \<Rightarrow> cell" where
  "juan = sheet_row
     [(''Puesto'', PyStr (ustr ''Director'')), (''PrimerNombre'', PyStr (ustr ''Juan'')),
      (''PrimerApellido'', PyStr (ustr ''Garc'' @ [237] @ ustr ''a'')),
      (''LLevaConyugue'', PyStr (ustr ''SI'')),
      (''PrimerNombreConyugue'', PyStr (ustr ''Mar'' @ [237] @ ustr ''a'')),
      (''PrimerApellidoConyugue'', PyStr (ustr ''L'' @ [243] @ ustr ''pez'')),
      (''QR'', PyStr (ustr ''QR001'')), (''QR_Conyugue'', PyStr (ustr ''QR002''))]"

definition ana :: "string \<Rightarrow> cell" where
  "ana = sheet_row
     [(''PrimerNombre'', PyStr (ustr ''Ana'')), (''PrimerApellido'', PyStr (ustr ''Paz'')),
      (''LLevaConyugue'', PyStr (ustr ''s'' @ [237])),
      (''PrimerNombreConyugue'', PyStr (ustr ''Luis'')),
      (''PrimerApellidoConyugue'', PyStr (ustr ''Rey'')),
      (''QR'', PyStr (ustr ''QR003''))]"


text \<open>
  Cache directories for \<open>clean_cache\<close>: one with two old images, a recent one and a
  file that is no image, and the same directory after the old images are gone; one
  with an old image and an image whose age is exactly the threshold of 30 days at the
  clock reading 3000000; one with an entry \<open>link.png\<close> that cannot be stat'ed; and
  the answers of \<open>stat\<close>.
\<close>

definition aged_world :: world where
  "aged_world =
     empty_world\<lparr>files := [(ustr ''qrs/old.png'', [1]), (ustr ''qrs/new.png'', [2]),
                            (ustr ''qrs/old_local.png'', [3]), (ustr ''qrs/notes.txt'', [4])],
                  dirs := [ustr ''qrs'']\<rparr>"

definition swept_world :: world where
  "swept_world =
     empty_world\<lparr>files := [(ustr ''qrs/new.png'', [2]), (ustr ''qrs/notes.txt'', [4])],
                  dirs := [ustr ''qrs'']\<rparr>"

definition edge_world :: world where
  "edge_world =
     empty_world\<lparr>files := [(ustr ''qrs/old.png'', [1]), (ustr ''qrs/edge.png'', [2])],
                  dirs := [ustr ''qrs'']\<rparr>"

definition link_world :: world where
  "link_world =
     empty_world\<lparr>files := [(ustr ''qrs/link.png'', [])], dirs := [ustr ''qrs'']\<rparr>"

definition stat_mtime :: "pystr \<Rightarrow> exc + real" where
  "stat_mtime p =
     (if p = ustr ''qrs/link.png'' then Inl (OSError (ustr ''No such file or directory''))
      else if p = ustr ''qrs/new.png'' then Inr 2999000
      else if p = ustr ''qrs/edge.png'' then Inr 408000
      else Inr 0)"

section \<open>Facts about strings and paths\<close>

lemma ustr_Nil: "ustr [] = []"
  by (simp add: ustr_def)

lemma ustr_Cons: "ustr (c # cs) = of_char c # ustr cs"
  by (simp add: ustr_def)

lemmas ustr_simps = ustr_Nil ustr_Cons

lemma endswith_suffix: "endswith s p = suffix p s"
proof
  assume "endswith s p"
  then have "s = take (length s - length p) s @ p"
    by (metis append_take_drop_id endswith_def)
  then show "suffix p s"
    by (metis suffixI)
next
  assume "suffix p s"
  then obtain zs where "s = zs @ p"
    by (auto simp: suffix_def)
  then show "endswith s p"
    by (simp add: endswith_def)
qed

lemma startswith_prefix: "startswith s p = prefix p s"
  by (metis startswith_def prefix_def append_eq_conv_conj take_is_prefix)

lemma suffix_after_slash:
  assumes "pre = [] \<or> last pre = 47" and "47 \<notin> set t"
  shows "suffix t (pre @ c) = suffix t c"
proof
  assume "suffix t (pre @ c)"
  then consider "suffix t c" | xs where "t = xs @ c" "suffix xs pre"
    by (auto simp: suffix_append)
  then show "suffix t c"
  proof cases
    case 1
    then show ?thesis .
  next
    case 2
    show ?thesis
    proof (cases "xs = []")
      case True
      with 2 show ?thesis by simp
    next
      case False
      with 2 have "pre \<noteq> []" by auto
      with assms have "last pre = 47" by simp
      moreover from 2 False \<open>pre \<noteq> []\<close> have "last xs = last pre"
        by (auto simp: suffix_def)
      ultimately have "47 \<in> set xs"
        using False last_in_set by metis
      with 2 assms show ?thesis by simp
    qed
  qed
next
  assume "suffix t c"
  then show "suffix t (pre @ c)"
    by (simp add: suffix_appendI)
qed

lemma join_split:
  "\<exists>pre. os_path_join a b = pre @ b \<and> (pre = [] \<or> last pre = 47)"
proof -
  have "endswith a (ustr ''/'') \<Longrightarrow> last a = 47 \<and> a \<noteq> []"
    by (auto simp: endswith_suffix suffix_def ustr_simps)
  then show ?thesis
    unfolding os_path_join_def
    by (cases "startswith b (ustr ''/'')"; cases "a = [] \<or> endswith a (ustr ''/'')")
       (auto simp: ustr_simps intro: exI [of _ "a @ [47]"] exI [of _ a])
qed

lemma endswith_valid_path:
  "endswith (valid_path d c) (ustr ''_local.png'') = endswith c (ustr ''_local'')"
proof -
  obtain pre where p: "valid_path d c = pre @ c @ ustr ''.png''" "pre = [] \<or> last pre = 47"
    using join_split [of d "c @ ustr ''.png''"] by (auto simp: valid_path_def)
  have "suffix (ustr ''_local'' @ ustr ''.png'') ((pre @ c) @ ustr ''.png'')
          = suffix (ustr ''_local'') (pre @ c)"
    by (rule same_suffix_suffix)
  also have "\<dots> = suffix (ustr ''_local'') c"
    using p(2) by (intro suffix_after_slash) (simp_all add: ustr_simps)
  finally show ?thesis
    using p(1) by (simp add: endswith_suffix ustr_simps)
qed

lemma valid_local_distinct: "valid_path d c \<noteq> local_path d c"
proof -
  have "c @ ustr ''.png'' \<noteq> c @ ustr ''_local.png''" by (simp add: ustr_simps)
  moreover have "startswith (c @ ustr ''.png'') (ustr ''/'') = startswith (c @ ustr ''_local.png'') (ustr ''/'')"
    by (cases c) (simp_all add: startswith_def ustr_simps)
  ultimately show ?thesis
    by (auto simp: valid_path_def local_path_def os_path_join_def)
qed

lemma valid_path_local_key: "valid_path d (k @ ustr ''_local'') = local_path d k"
  by (simp add: valid_path_def local_path_def ustr_simps)

section \<open>Facts about the operating-system calls\<close>

lemma refusal_None: "refusal w p = None \<Longrightarrow> \<not> unrepresentable p"
  by (simp add: refusal_def split: if_splits)

lemma open_rb_Some:
  "map_of (files w) p = Some b \<Longrightarrow> refusal w p = None \<Longrightarrow> open_rb w p = Inr b"
  by (simp add: open_rb_def)


lemma open_wb_ok:
  "refusal w p = None \<Longrightarrow> p \<notin> set (dirs w) \<Longrightarrow>
   open_wb w p b = Inr (w\<lparr>files := AList.update p b (files w), written := written w @ [(p, b)]\<rparr>)"
  by (simp add: open_wb_def)

lemma open_wb_cases:
  "(\<exists>x. open_wb w p b = Inl (Library x) \<and> (refusal w p = Some x \<or> x = OSError p)) \<or>
   (refusal w p = None \<and> p \<notin> set (dirs w) \<and>
    open_wb w p b = Inr (w\<lparr>files := AList.update p b (files w), written := written w @ [(p, b)]\<rparr>))"
  by (auto simp: open_wb_def split: option.splits)


lemma map_of_update_other: "q \<noteq> p \<Longrightarrow> map_of (AList.update p b al) q = map_of al q"
  by (simp add: update_conv')

lemma map_of_update_same: "map_of (AList.update p b al) p = Some b"
  by (simp add: update_conv')

lemma isfile_exists:
  "map_of (files w) p = Some b \<Longrightarrow> \<not> unrepresentable p \<Longrightarrow> os_path_exists w p"
  by (simp add: os_path_exists_def os_path_isfile_def)

lemma ensure_dir_cases:
  "ensure_dir w strat d = Inr w1 \<Longrightarrow> w1 = w \<or> w1 = w\<lparr>dirs := d # dirs w\<rparr>"
  by (auto simp: ensure_dir_def os_makedirs_def split: if_splits option.splits)

lemma ensure_dir_frame:
  assumes "ensure_dir w strat d = Inr w1"
  shows "files w1 = files w" "refused w1 = refused w" "requests w1 = requests w"
    "written w1 = written w" "os_path_isfile w1 p = os_path_isfile w p"
    "refusal w1 p = refusal w p"
  using ensure_dir_cases [OF assms] by (auto simp: os_path_isfile_def refusal_def)


section \<open>Facts about the download loop\<close>

lemma download_frame:
  "files (snd (download_qr_from_url e w url n)) = files w \<and>
   dirs (snd (download_qr_from_url e w url n)) = dirs w \<and>
   refused (snd (download_qr_from_url e w url n)) = refused w \<and>
   written (snd (download_qr_from_url e w url n)) = written w"
  by (induction n arbitrary: w) (auto simp: http_get_def split: response.splits)

lemma download_requests_replicate:
  "\<exists>k. requests (snd (download_qr_from_url e w url n)) = requests w @ replicate k url \<and>
       k \<le> n \<and> (0 < n \<longrightarrow> 0 < k)"
proof (induction n arbitrary: w)
  case 0
  show ?case by simp
next
  case (Suc n)
  let ?w = "w\<lparr>requests := requests w @ [url]\<rparr>"
  show ?case
  proof (cases "server e (requests w) url = RequestFailed")
    case False
    then have "requests (snd (download_qr_from_url e w url (Suc n))) = requests w @ replicate 1 url"
      by (cases "server e (requests w) url") (simp_all add: http_get_def)
    then show ?thesis by (intro exI [of _ 1]) simp
  next
    case True
    from Suc [of ?w] obtain k where
      k: "requests (snd (download_qr_from_url e ?w url n)) = requests ?w @ replicate k url"
         "k \<le> n"
      by blast
    from True have "download_qr_from_url e w url (Suc n) = download_qr_from_url e ?w url n"
      by (simp add: http_get_def)
    with k have "requests (snd (download_qr_from_url e w url (Suc n)))
                   = requests w @ replicate (Suc k) url"
      by simp
    with k(2) show ?thesis by (intro exI [of _ "Suc k"]) simp
  qed
qed

lemma download_requests:
  "0 < n \<Longrightarrow> \<exists>rest. requests (snd (download_qr_from_url e w url n)) = requests w @ url # rest"
proof -
  assume "0 < n"
  with download_requests_replicate [of e w url n] obtain k where
    k: "requests (snd (download_qr_from_url e w url n)) = requests w @ replicate k url" "0 < k"
    by blast
  then obtain j where "k = Suc j" by (cases k) auto
  with k show ?thesis by simp
qed


lemma download_fst_requests:
  "requests w1 = requests w \<Longrightarrow>
   fst (download_qr_from_url e w1 url n) = fst (download_qr_from_url e w url n)"
  by (induction n arbitrary: w w1) (auto simp: http_get_def split: response.splits)


section \<open>Facts about the resolver\<close>



lemma get_qr_image_hit:
  "\<not> os_path_isfile w ident \<Longrightarrow> codigo_url ident = (codigo, url) \<Longrightarrow>
   ensure_dir w strat d = Inr w1 \<Longrightarrow> cache_hit w1 strat d codigo \<Longrightarrow>
   get_qr_image e w ident strat d af = (open_rb w1 (valid_path d codigo), w1)"
  by (simp add: get_qr_image_def)

lemma get_qr_image_escape:
  "\<not> os_path_isfile w ident \<Longrightarrow> codigo_url ident = (codigo, url) \<Longrightarrow>
   ensure_dir w strat d = Inr w1 \<Longrightarrow> \<not> cache_hit w1 strat d codigo \<Longrightarrow>
   download_qr_from_url e w1 url MAX_RETRIES = (Inl err, w2) \<Longrightarrow>
   get_qr_image e w ident strat d af = (Inl err, w2)"
  by (simp add: get_qr_image_def)

lemma get_qr_image_body:
  "\<not> os_path_isfile w ident \<Longrightarrow> codigo_url ident = (codigo, url) \<Longrightarrow>
   ensure_dir w strat d = Inr w1 \<Longrightarrow> \<not> cache_hit w1 strat d codigo \<Longrightarrow>
   download_qr_from_url e w1 url MAX_RETRIES = (Inr (Some b), w2) \<Longrightarrow> b \<noteq> [] \<Longrightarrow>
   get_qr_image e w ident strat d af =
     (if strat = Cache then
        (case open_wb w2 (valid_path d codigo) b of
           Inl err \<Rightarrow> (Inl err, w2)
         | Inr w3 \<Rightarrow> (Inr b, w3))
      else (Inr b, w2))"
  by (simp add: get_qr_image_def)

lemma get_qr_image_no_bytes:
  "\<not> os_path_isfile w ident \<Longrightarrow> codigo_url ident = (codigo, url) \<Longrightarrow>
   ensure_dir w strat d = Inr w1 \<Longrightarrow> \<not> cache_hit w1 strat d codigo \<Longrightarrow>
   download_qr_from_url e w1 url MAX_RETRIES = (Inr qr, w2) \<Longrightarrow> qr = None \<or> qr = Some [] \<Longrightarrow>
   get_qr_image e w ident strat d af = fallback e w2 ident strat d codigo af"
  by (auto simp: get_qr_image_def)

lemma cache_hit_iff:
  "cache_hit w strat d codigo =
     (strat = Cache \<and> os_path_exists w (valid_path d codigo) \<and>
      \<not> endswith codigo (ustr ''_local''))"
  by (simp only: cache_hit_def endswith_valid_path)

lemma fallback_requests: "requests (snd (fallback e w ident strat d codigo af)) = requests w"
  by (auto simp: fallback_def open_wb_def split: sum.splits option.splits)

text \<open>
  The three ways in which a call that is not answered from a local file or from the
  cache can go on after the download.
\<close>

lemma download_outcomes:
  obtains (escape) err w2 where "download_qr_from_url e w1 url n = (Inl err, w2)"
  | (body) b w2 where "download_qr_from_url e w1 url n = (Inr (Some b), w2)" "b \<noteq> []"
  | (no_bytes) qr w2 where "download_qr_from_url e w1 url n = (Inr qr, w2)"
      "qr = None \<or> qr = Some []"
proof (cases "download_qr_from_url e w1 url n")
  case (Pair r w2)
  then show ?thesis
    by (cases r; cases "projr r"; cases "the (projr r) = []") (auto intro: that)
qed

lemma get_qr_image_miss_requests:
  assumes "\<not> os_path_isfile w ident" and "codigo_url ident = (codigo, url)"
    and "ensure_dir w strat d = Inr w1" and "\<not> cache_hit w1 strat d codigo"
  shows "requests (snd (get_qr_image e w ident strat d af)) =
         requests (snd (download_qr_from_url e w1 url MAX_RETRIES))"
proof (cases rule: download_outcomes [of e w1 url MAX_RETRIES])
  case (escape err w2)
  with get_qr_image_escape [OF assms escape] show ?thesis by simp
next
  case (body b w2)
  from open_wb_cases [of w2 "valid_path d codigo" b] show ?thesis
    unfolding get_qr_image_body [OF assms body] by (auto simp: body)
next
  case (no_bytes qr w2)
  show ?thesis
    unfolding get_qr_image_no_bytes [OF assms no_bytes] by (simp add: no_bytes fallback_requests)
qed

lemma get_qr_image_miss_downloads:
  assumes "\<not> os_path_isfile w ident" and "codigo_url ident = (codigo, url)"
    and "ensure_dir w strat d = Inr w1" and "\<not> cache_hit w1 strat d codigo"
  shows "\<exists>rest. requests (snd (get_qr_image e w ident strat d af)) = requests w @ url # rest"
proof -
  have "0 < MAX_RETRIES" by (simp add: MAX_RETRIES_def)
  from download_requests [OF this, of e w1 url] show ?thesis
    by (simp add: get_qr_image_miss_requests [OF assms] ensure_dir_frame(3) [OF assms(3)])
qed





lemma get_qr_image_miss_result:
  assumes "\<not> os_path_isfile w ident" and "codigo_url ident = (codigo, url)"
    and "ensure_dir w strat d = Inr w1" and "\<not> cache_hit w1 strat d codigo"
    and "fst (get_qr_image e w ident strat d af) = Inr x"
  shows "(fst (download_qr_from_url e w url MAX_RETRIES) = Inr (Some x) \<and> x \<noteq> []) \<or>
         (fst (download_qr_from_url e w url MAX_RETRIES) \<in> {Inr None, Inr (Some [])} \<and> af \<and>
          generate_qr_local e ident = Inr x)"
proof -
  note fr = ensure_dir_frame [OF assms(3)]
  have same: "fst (download_qr_from_url e w url MAX_RETRIES) =
              fst (download_qr_from_url e w1 url MAX_RETRIES)"
    using download_fst_requests [OF fr(3), of e url MAX_RETRIES] by simp
  show ?thesis
  proof (cases rule: download_outcomes [of e w1 url MAX_RETRIES])
    case (escape err w2)
    with assms(5) show ?thesis
      unfolding get_qr_image_escape [OF assms(1-4) escape] by simp
  next
    case (body b w2)
    from assms(5) have "x = b"
      unfolding get_qr_image_body [OF assms(1-4) body]
      by (auto split: if_splits sum.splits)
    with body show ?thesis
      by (simp add: same)
  next
    case (no_bytes qr w2)
    from assms(5) have "fst (fallback e w2 ident strat d codigo af) = Inr x"
      unfolding get_qr_image_no_bytes [OF assms(1-4) no_bytes] .
    then have "af \<and> generate_qr_local e ident = Inr x"
      by (auto simp: fallback_def split: if_splits sum.splits)
    with no_bytes show ?thesis
      by (auto simp: same)
  qed
qed






text \<open>The definitions that evaluate a call of the resolver on the worlds of the examples.\<close>

lemmas world_eval =
  get_qr_image_def os_path_isfile_def os_path_isdir_def os_path_exists_def unrepresentable_def
  refusal_def codigo_url_def startswith_def endswith_def ensure_dir_def os_makedirs_def
  cache_hit_def valid_path_def local_path_def os_path_join_def open_rb_def open_wb_def
  http_get_def fallback_def MAX_RETRIES_def numeral_2_eq_2 QR_BASE_URL_def ustr_simps
  empty_world_def cached_world_def fallback_only_world_def both_world_def unwritable_world_def
  blocked_dir_world_def server_up_def server_down_def

section \<open>The resolver: errors\<close>




section \<open>The resolver: the cached entry\<close>

text \<open>
  Claim C4, as the code has it.  Under the cache strategy, for an identifier that is
  not an existing local file and a cache directory that is there or can be made: if
  \<open>{codigo}.png\<close> is a regular file that can be read and \<open>codigo\<close> does not end with
  \<open>_local\<close>, the call returns the bytes of that file and makes no request; if no
  entry \<open>{codigo}.png\<close> exists (whether or not \<open>{codigo}_local.png\<close> does), the call
  requests the URL.
\<close>

theorem valid_entry_short_circuit:
  assumes "\<not> os_path_isfile w ident" and "codigo_url ident = (codigo, url)"
    and "ensure_dir w Cache qrs_dir = Inr w1"
  shows "(map_of (files w) (valid_path qrs_dir codigo) = Some cached \<and>
          refusal w (valid_path qrs_dir codigo) = None \<and>
          \<not> endswith codigo (ustr ''_local'') \<longrightarrow>
            get_qr_image e w ident Cache qrs_dir allow_fallback = (Inr cached, w1) \<and>
            requests w1 = requests w) \<and>
         (\<not> os_path_exists w1 (valid_path qrs_dir codigo) \<longrightarrow>
            (\<exists>rest. requests (snd (get_qr_image e w ident Cache qrs_dir allow_fallback)) =
                      requests w @ url # rest))"
proof -
  note fr = ensure_dir_frame [OF assms(3)]
  have hit: "map_of (files w) (valid_path qrs_dir codigo) = Some cached \<and>
          refusal w (valid_path qrs_dir codigo) = None \<and>
          \<not> endswith codigo (ustr ''_local'') \<longrightarrow>
            get_qr_image e w ident Cache qrs_dir allow_fallback = (Inr cached, w1) \<and>
            requests w1 = requests w"
  proof
    assume h: "map_of (files w) (valid_path qrs_dir codigo) = Some cached \<and>
          refusal w (valid_path qrs_dir codigo) = None \<and>
          \<not> endswith codigo (ustr ''_local'')"
    then have f: "map_of (files w1) (valid_path qrs_dir codigo) = Some cached"
      and r: "refusal w1 (valid_path qrs_dir codigo) = None"
      by (simp_all add: fr)
    from f refusal_None [OF r] have "os_path_exists w1 (valid_path qrs_dir codigo)"
      by (rule isfile_exists)
    with h have "cache_hit w1 Cache qrs_dir codigo"
      by (simp add: cache_hit_iff)
    from get_qr_image_hit [OF assms this] open_rb_Some [OF f r]
    have "get_qr_image e w ident Cache qrs_dir allow_fallback = (Inr cached, w1)"
      by simp
    then show "get_qr_image e w ident Cache qrs_dir allow_fallback = (Inr cached, w1) \<and>
            requests w1 = requests w"
      by (simp add: fr(3))
  qed
  have miss: "\<not> os_path_exists w1 (valid_path qrs_dir codigo) \<longrightarrow>
            (\<exists>rest. requests (snd (get_qr_image e w ident Cache qrs_dir allow_fallback)) =
                      requests w @ url # rest)"
  proof
    assume "\<not> os_path_exists w1 (valid_path qrs_dir codigo)"
    then have "\<not> cache_hit w1 Cache qrs_dir codigo"
      by (simp add: cache_hit_iff)
    from get_qr_image_miss_downloads [OF assms this]
    show "\<exists>rest. requests (snd (get_qr_image e w ident Cache qrs_dir allow_fallback)) =
                  requests w @ url # rest" .
  qed
  show ?thesis
    by (rule conjI [OF hit miss])
qed

text \<open>
  Without the condition on the key the claim fails: for the identifier \<open>A_local\<close> the
  file \<open>qrs/A_local.png\<close> exists, and yet the call asks the server and returns the
  server's bytes.
\<close>

theorem valid_entry_short_circuit_counterexample:
  "map_of (files fallback_only_world) (valid_path (ustr ''qrs'') (ustr ''A_local'')) = Some [9] \<and>
   \<not> os_path_isfile fallback_only_world (ustr ''A_local'') \<and>
   fst (get_qr_image server_up fallback_only_world (ustr ''A_local'') Cache (ustr ''qrs'') False) =
     Inr [137, 80, 78, 71] \<and>
   requests (snd (get_qr_image server_up fallback_only_world (ustr ''A_local'') Cache
     (ustr ''qrs'') False)) = [QR_BASE_URL (ustr ''A_local'')]"
  by (simp add: world_eval)

theorem valid_entry_short_circuit_witness:
  "get_qr_image server_down cached_world (ustr ''QR001'') Cache (ustr ''qrs'') False =
     (Inr [1, 2, 3], cached_world) \<and>
   requests cached_world = [] \<and>
   map_of (files fallback_only_world) (local_path (ustr ''qrs'') (ustr ''A'')) = Some [9] \<and>
   \<not> os_path_exists fallback_only_world (valid_path (ustr ''qrs'') (ustr ''A'')) \<and>
   (\<exists>rest. requests (snd (get_qr_image server_down fallback_only_world (ustr ''A'') Cache
      (ustr ''qrs'') False)) = QR_BASE_URL (ustr ''A'') # rest)"
proof -
  have a: "\<not> os_path_isfile cached_world (ustr ''QR001'')"
    by (simp add: world_eval)
  have b: "codigo_url (ustr ''QR001'') = (ustr ''QR001'', QR_BASE_URL (ustr ''QR001''))"
    by (simp add: codigo_url_def startswith_def ustr_simps)
  have c: "ensure_dir cached_world Cache (ustr ''qrs'') = Inr cached_world"
    by (simp add: world_eval)
  have d: "map_of (files cached_world) (valid_path (ustr ''qrs'') (ustr ''QR001'')) = Some [1, 2, 3]"
    by (simp add: world_eval)
  have r: "refusal cached_world (valid_path (ustr ''qrs'') (ustr ''QR001'')) = None"
    by (simp add: world_eval)
  have e: "\<not> endswith (ustr ''QR001'') (ustr ''_local'')"
    by (simp add: endswith_def ustr_simps)
  have a': "\<not> os_path_isfile fallback_only_world (ustr ''A'')"
    by (simp add: world_eval)
  have b': "codigo_url (ustr ''A'') = (ustr ''A'', QR_BASE_URL (ustr ''A''))"
    by (simp add: codigo_url_def startswith_def ustr_simps)
  have c': "ensure_dir fallback_only_world Cache (ustr ''qrs'') = Inr fallback_only_world"
    by (simp add: world_eval)
  have d': "\<not> os_path_exists fallback_only_world (valid_path (ustr ''qrs'') (ustr ''A''))"
    by (simp add: world_eval)
  have f': "map_of (files fallback_only_world) (local_path (ustr ''qrs'') (ustr ''A'')) = Some [9]"
    by (simp add: world_eval)
  have g: "requests cached_world = []" "requests fallback_only_world = []"
    by (simp_all add: cached_world_def fallback_only_world_def empty_world_def)
  from valid_entry_short_circuit [OF a b c, of "[1, 2, 3]" server_down False] d e r
  have 1: "get_qr_image server_down cached_world (ustr ''QR001'') Cache (ustr ''qrs'') False =
     (Inr [1, 2, 3], cached_world)"
    by simp
  from valid_entry_short_circuit [OF a' b' c', of "[1, 2, 3]" server_down False] d'
  have 2: "\<exists>rest. requests (snd (get_qr_image server_down fallback_only_world (ustr ''A'') Cache
      (ustr ''qrs'') False)) = QR_BASE_URL (ustr ''A'') # rest"
    by (simp add: g)
  from 1 2 d' f' g show ?thesis by simp
qed

text \<open>
  Claim C10, as the code has it.  Under the cache strategy, for an identifier that is
  not an existing local file and a cache directory that is there or can be made: the
  call makes no request exactly when \<open>{codigo}.png\<close> exists and \<open>codigo\<close> does not
  end with \<open>_local\<close>, and it then returns what reading that file gives.  For a key
  that ends with \<open>_local\<close> the call requests the URL whether the file exists or not,
  and whatever it returns is the non-empty body that the download gave or, when the
  download gave no bytes and the fallback is allowed, the image that the QR library
  generated: never the content of the cached file.  For such a key \<open>k_local\<close> the
  valid-tier file name of the key is the fallback-tier file name of \<open>k\<close>.
\<close>

theorem local_suffix_guard:
  assumes "\<not> os_path_isfile w ident" and "codigo_url ident = (codigo, url)"
    and "ensure_dir w Cache qrs_dir = Inr w1"
  shows "((requests (snd (get_qr_image e w ident Cache qrs_dir allow_fallback)) = requests w) =
          (os_path_exists w1 (valid_path qrs_dir codigo) \<and> \<not> endswith codigo (ustr ''_local''))) \<and>
         (os_path_exists w1 (valid_path qrs_dir codigo) \<and> \<not> endswith codigo (ustr ''_local'') \<longrightarrow>
            get_qr_image e w ident Cache qrs_dir allow_fallback =
              (open_rb w1 (valid_path qrs_dir codigo), w1)) \<and>
         (endswith codigo (ustr ''_local'') \<longrightarrow>
            (\<exists>rest. requests (snd (get_qr_image e w ident Cache qrs_dir allow_fallback)) =
                      requests w @ url # rest) \<and>
            (\<forall>x. fst (get_qr_image e w ident Cache qrs_dir allow_fallback) = Inr x \<longrightarrow>
               (fst (download_qr_from_url e w url MAX_RETRIES) = Inr (Some x) \<and> x \<noteq> []) \<or>
               (fst (download_qr_from_url e w url MAX_RETRIES) \<in> {Inr None, Inr (Some [])} \<and>
                allow_fallback \<and> generate_qr_local e ident = Inr x))) \<and>
         (\<forall>k. codigo = k @ ustr ''_local'' \<longrightarrow>
            valid_path qrs_dir codigo = local_path qrs_dir k)"
proof -
  let ?hit = "os_path_exists w1 (valid_path qrs_dir codigo) \<and> \<not> endswith codigo (ustr ''_local'')"
  let ?run = "get_qr_image e w ident Cache qrs_dir allow_fallback"
  have hit: "?hit \<longrightarrow> ?run = (open_rb w1 (valid_path qrs_dir codigo), w1)"
    using get_qr_image_hit [OF assms] by (simp add: cache_hit_iff)
  have miss: "\<not> ?hit \<Longrightarrow> \<exists>rest. requests (snd ?run) = requests w @ url # rest"
    using get_qr_image_miss_downloads [OF assms] by (simp add: cache_hit_iff)
  have iff: "(requests (snd ?run) = requests w) = ?hit"
  proof (cases ?hit)
    case True
    with hit show ?thesis
      by (simp add: ensure_dir_frame(3) [OF assms(3)])
  next
    case False
    with miss obtain rest where "requests (snd ?run) = requests w @ url # rest"
      by blast
    with False show ?thesis by simp
  qed
  have loc: "endswith codigo (ustr ''_local'') \<longrightarrow>
      (\<exists>rest. requests (snd ?run) = requests w @ url # rest) \<and>
      (\<forall>x. fst ?run = Inr x \<longrightarrow>
         (fst (download_qr_from_url e w url MAX_RETRIES) = Inr (Some x) \<and> x \<noteq> []) \<or>
         (fst (download_qr_from_url e w url MAX_RETRIES) \<in> {Inr None, Inr (Some [])} \<and>
          allow_fallback \<and> generate_qr_local e ident = Inr x))"
  proof
    assume l: "endswith codigo (ustr ''_local'')"
    then have nh: "\<not> cache_hit w1 Cache qrs_dir codigo"
      by (simp add: cache_hit_iff)
    have "\<forall>x. fst ?run = Inr x \<longrightarrow>
         (fst (download_qr_from_url e w url MAX_RETRIES) = Inr (Some x) \<and> x \<noteq> []) \<or>
         (fst (download_qr_from_url e w url MAX_RETRIES) \<in> {Inr None, Inr (Some [])} \<and>
          allow_fallback \<and> generate_qr_local e ident = Inr x)"
      using get_qr_image_miss_result [OF assms nh] by blast
    moreover from l have "\<exists>rest. requests (snd ?run) = requests w @ url # rest"
      by (intro miss) simp
    ultimately show "(\<exists>rest. requests (snd ?run) = requests w @ url # rest) \<and>
      (\<forall>x. fst ?run = Inr x \<longrightarrow>
         (fst (download_qr_from_url e w url MAX_RETRIES) = Inr (Some x) \<and> x \<noteq> []) \<or>
         (fst (download_qr_from_url e w url MAX_RETRIES) \<in> {Inr None, Inr (Some [])} \<and>
          allow_fallback \<and> generate_qr_local e ident = Inr x))"
      by (rule conjI [rotated])
  qed
  have name: "\<forall>k. codigo = k @ ustr ''_local'' \<longrightarrow>
      valid_path qrs_dir codigo = local_path qrs_dir k"
    by (simp add: valid_path_local_key)
  show ?thesis
    by (rule conjI [OF iff conjI [OF hit conjI [OF loc name]]])
qed

text \<open>
  Without a cache directory the claim fails: where \<open>qrs\<close> is a regular file,
  \<open>os.makedirs\<close> raises, and the call for the key \<open>A_local\<close> ends with that exception
  before any request is made.
\<close>

theorem local_suffix_guard_counterexample:
  "endswith (ustr ''A_local'') (ustr ''_local'') \<and>
   \<not> os_path_isfile blocked_dir_world (ustr ''A_local'') \<and>
   codigo_url (ustr ''A_local'') = (ustr ''A_local'', QR_BASE_URL (ustr ''A_local'')) \<and>
   get_qr_image server_up blocked_dir_world (ustr ''A_local'') Cache (ustr ''qrs'') False =
     (Inl (Library (OSError (ustr ''qrs''))), blocked_dir_world) \<and>
   requests blocked_dir_world = []"
  by (simp add: world_eval)

theorem local_suffix_guard_witness:
  "os_path_exists fallback_only_world (valid_path (ustr ''qrs'') (ustr ''A_local'')) \<and>
   endswith (ustr ''A_local'') (ustr ''_local'') \<and>
   requests (snd (get_qr_image server_up fallback_only_world (ustr ''A_local'') Cache
     (ustr ''qrs'') False)) \<noteq> requests fallback_only_world \<and>
   (\<exists>rest. requests (snd (get_qr_image server_up fallback_only_world (ustr ''A_local'') Cache
     (ustr ''qrs'') False)) = requests fallback_only_world @ QR_BASE_URL (ustr ''A_local'') # rest) \<and>
   fst (get_qr_image server_up fallback_only_world (ustr ''A_local'') Cache (ustr ''qrs'') False) =
     Inr [137, 80, 78, 71] \<and>
   fst (download_qr_from_url server_up fallback_only_world (QR_BASE_URL (ustr ''A_local''))
     MAX_RETRIES) = Inr (Some [137, 80, 78, 71]) \<and>
   map_of (files fallback_only_world) (valid_path (ustr ''qrs'') (ustr ''A_local'')) = Some [9] \<and>
   valid_path (ustr ''qrs'') (ustr ''A_local'') = local_path (ustr ''qrs'') (ustr ''A'')"
proof -
  have a: "\<not> os_path_isfile fallback_only_world (ustr ''A_local'')"
    by (simp add: world_eval)
  have b: "codigo_url (ustr ''A_local'') = (ustr ''A_local'', QR_BASE_URL (ustr ''A_local''))"
    by (simp add: codigo_url_def startswith_def ustr_simps)
  have c: "ensure_dir fallback_only_world Cache (ustr ''qrs'') = Inr fallback_only_world"
    by (simp add: world_eval)
  have d: "os_path_exists fallback_only_world (valid_path (ustr ''qrs'') (ustr ''A_local''))"
    by (simp add: world_eval)
  have f: "endswith (ustr ''A_local'') (ustr ''_local'')"
    by (simp add: endswith_def ustr_simps)
  have g: "ustr ''A_local'' = ustr ''A'' @ ustr ''_local''"
    by (simp add: ustr_simps)
  have r: "fst (get_qr_image server_up fallback_only_world (ustr ''A_local'') Cache (ustr ''qrs'')
             False) = Inr [137, 80, 78, 71]"
    by (simp add: world_eval)
  have m: "map_of (files fallback_only_world) (valid_path (ustr ''qrs'') (ustr ''A_local'')) = Some [9]"
    by (simp add: world_eval)
  note t = local_suffix_guard [OF a b c, of server_up False]
  from conjunct1 [OF t] d f
  have 1: "requests (snd (get_qr_image server_up fallback_only_world (ustr ''A_local'') Cache
     (ustr ''qrs'') False)) \<noteq> requests fallback_only_world"
    by simp
  from conjunct1 [OF conjunct2 [OF conjunct2 [OF t]]] f
  have 2: "(\<exists>rest. requests (snd (get_qr_image server_up fallback_only_world (ustr ''A_local'') Cache
     (ustr ''qrs'') False)) = requests fallback_only_world @ QR_BASE_URL (ustr ''A_local'') # rest)"
    and 3: "\<forall>x. fst (get_qr_image server_up fallback_only_world (ustr ''A_local'') Cache
           (ustr ''qrs'') False) = Inr x \<longrightarrow>
       (fst (download_qr_from_url server_up fallback_only_world (QR_BASE_URL (ustr ''A_local''))
          MAX_RETRIES) = Inr (Some x) \<and> x \<noteq> []) \<or>
       (fst (download_qr_from_url server_up fallback_only_world (QR_BASE_URL (ustr ''A_local''))
          MAX_RETRIES) \<in> {Inr None, Inr (Some [])} \<and> False \<and>
        generate_qr_local server_up (ustr ''A_local'') = Inr x)"
    by simp_all
  from 3 [rule_format, OF r]
  have 4: "fst (download_qr_from_url server_up fallback_only_world (QR_BASE_URL (ustr ''A_local''))
     MAX_RETRIES) = Inr (Some [137, 80, 78, 71])"
    by simp
  from conjunct2 [OF conjunct2 [OF conjunct2 [OF t]]] g
  have 5: "valid_path (ustr ''qrs'') (ustr ''A_local'') = local_path (ustr ''qrs'') (ustr ''A'')"
    by simp
  from d f 1 2 r 4 m 5 show ?thesis
    by (intro conjI)
qed

text \<open>
  Claim C3, as the code has it.  Under the cache strategy, take an identifier that
  is not an existing local file, a cache directory that is there or can be made, a
  key for which both \<open>{codigo}.png\<close> and \<open>{codigo}_local.png\<close> are regular files, and
  a server whose answer is a non-empty body.  If the key does not end with \<open>_local\<close>
  and \<open>{codigo}.png\<close> can be read, the call returns the bytes of the valid entry and
  makes no request at all: no fresh download is performed.  If the key ends with
  \<open>_local\<close>, the call requests the URL, and if \<open>{codigo}.png\<close> can be written it
  returns the downloaded bytes and stores them in that file.  In every case the bytes
  that the call returns, if it returns any, are the content of the valid entry or the
  downloaded body, and the fallback entry is left as it was.
\<close>

theorem both_entries_valid_wins:
  assumes "\<not> os_path_isfile w ident" and "codigo_url ident = (codigo, url)"
    and "ensure_dir w Cache qrs_dir = Inr w1"
    and "map_of (files w) (valid_path qrs_dir codigo) = Some valid_bytes"
    and "map_of (files w) (local_path qrs_dir codigo) = Some local_bytes"
    and "fst (download_qr_from_url e w url MAX_RETRIES) = Inr (Some b)" and "b \<noteq> []"
  shows "(\<not> endswith codigo (ustr ''_local'') \<and> refusal w (valid_path qrs_dir codigo) = None \<longrightarrow>
            get_qr_image e w ident Cache qrs_dir allow_fallback = (Inr valid_bytes, w1) \<and>
            requests w1 = requests w) \<and>
         (endswith codigo (ustr ''_local'') \<longrightarrow>
            (\<exists>rest. requests (snd (get_qr_image e w ident Cache qrs_dir allow_fallback)) =
                      requests w @ url # rest) \<and>
            (valid_path qrs_dir codigo \<notin> set (dirs w1) \<and>
             refusal w (valid_path qrs_dir codigo) = None \<longrightarrow>
               fst (get_qr_image e w ident Cache qrs_dir allow_fallback) = Inr b \<and>
               map_of (files (snd (get_qr_image e w ident Cache qrs_dir allow_fallback)))
                 (valid_path qrs_dir codigo) = Some b)) \<and>
         (\<forall>x. fst (get_qr_image e w ident Cache qrs_dir allow_fallback) = Inr x \<longrightarrow>
            x = valid_bytes \<or> x = b) \<and>
         map_of (files (snd (get_qr_image e w ident Cache qrs_dir allow_fallback)))
           (local_path qrs_dir codigo) = Some local_bytes"
proof -
  let ?vp = "valid_path qrs_dir codigo" and ?lp = "local_path qrs_dir codigo"
  let ?run = "get_qr_image e w ident Cache qrs_dir allow_fallback"
  note fr = ensure_dir_frame [OF assms(3)]
  show ?thesis
  proof (cases "cache_hit w1 Cache qrs_dir codigo")
    case True
    then have nl: "\<not> endswith codigo (ustr ''_local'')"
      by (simp add: cache_hit_iff)
    have run: "?run = (open_rb w1 ?vp, w1)"
      by (rule get_qr_image_hit [OF assms(1,2,3) True])
    have 1: "\<not> endswith codigo (ustr ''_local'') \<and> refusal w ?vp = None \<longrightarrow>
               ?run = (Inr valid_bytes, w1) \<and> requests w1 = requests w"
      using assms(4) by (simp add: run open_rb_Some fr)
    have 2: "endswith codigo (ustr ''_local'') \<longrightarrow>
            (\<exists>rest. requests (snd ?run) = requests w @ url # rest) \<and>
            (?vp \<notin> set (dirs w1) \<and> refusal w ?vp = None \<longrightarrow>
               fst ?run = Inr b \<and> map_of (files (snd ?run)) ?vp = Some b)"
      using nl by simp
    have 3: "\<forall>x. fst ?run = Inr x \<longrightarrow> x = valid_bytes \<or> x = b"
      using assms(4) by (auto simp: run open_rb_def fr split: option.splits)
    have 4: "map_of (files (snd ?run)) ?lp = Some local_bytes"
      using assms(5) by (simp add: run fr)
    show ?thesis
      by (rule conjI [OF 1 conjI [OF 2 conjI [OF 3 4]]])
  next
    case False
    obtain w2 where dl: "download_qr_from_url e w1 url MAX_RETRIES = (Inr (Some b), w2)"
      using assms(6) download_fst_requests [OF fr(3), of e url MAX_RETRIES]
      by (cases "download_qr_from_url e w1 url MAX_RETRIES") auto
    have w2: "files w2 = files w" "dirs w2 = dirs w1" "refused w2 = refused w"
      using download_frame [of e w1 url MAX_RETRIES] by (simp_all add: dl fr)
    then have rf: "refusal w2 ?vp = refusal w ?vp"
      by (simp add: refusal_def)
    have run: "?run = (case open_wb w2 ?vp b of Inl err \<Rightarrow> (Inl err, w2) | Inr w3 \<Rightarrow> (Inr b, w3))"
      using get_qr_image_body [OF assms(1,2,3) False dl assms(7)] by simp
    have neq: "?lp \<noteq> ?vp"
      using valid_local_distinct [of qrs_dir codigo] by simp
    have 1: "\<not> endswith codigo (ustr ''_local'') \<and> refusal w ?vp = None \<longrightarrow>
               ?run = (Inr valid_bytes, w1) \<and> requests w1 = requests w"
    proof
      assume h: "\<not> endswith codigo (ustr ''_local'') \<and> refusal w ?vp = None"
      then have "\<not> unrepresentable ?vp"
        by (auto dest: refusal_None)
      with assms(4) have "os_path_exists w1 ?vp"
        by (simp add: isfile_exists fr(1))
      with h False have False
        by (simp add: cache_hit_iff)
      then show "?run = (Inr valid_bytes, w1) \<and> requests w1 = requests w" ..
    qed
    have ok: "?vp \<notin> set (dirs w1) \<and> refusal w ?vp = None \<longrightarrow>
                fst ?run = Inr b \<and> map_of (files (snd ?run)) ?vp = Some b"
      by (simp add: run open_wb_ok w2 rf map_of_update_same)
    have 2: "endswith codigo (ustr ''_local'') \<longrightarrow>
            (\<exists>rest. requests (snd ?run) = requests w @ url # rest) \<and>
            (?vp \<notin> set (dirs w1) \<and> refusal w ?vp = None \<longrightarrow>
               fst ?run = Inr b \<and> map_of (files (snd ?run)) ?vp = Some b)"
      using ok get_qr_image_miss_downloads [OF assms(1,2,3) False, of e allow_fallback]
      by simp
    have 3: "\<forall>x. fst ?run = Inr x \<longrightarrow> x = valid_bytes \<or> x = b"
      by (auto simp: run split: sum.splits)
    have 4: "map_of (files (snd ?run)) ?lp = Some local_bytes"
      using open_wb_cases [of w2 ?vp b] assms(5) neq
      by (auto simp: run w2 map_of_update_other)
    show ?thesis
      by (rule conjI [OF 1 conjI [OF 2 conjI [OF 3 4]]])
  qed
qed

text \<open>
  The claim as it is stated fails: with both entries of \<open>QR001\<close> in the cache and a
  server that answers, the call makes no request and returns the cached bytes of
  \<open>qrs/QR001.png\<close>, not a fresh download.
\<close>

theorem both_entries_valid_wins_counterexample:
  "map_of (files both_world) (valid_path (ustr ''qrs'') (ustr ''QR001'')) = Some [1, 2, 3] \<and>
   map_of (files both_world) (local_path (ustr ''qrs'') (ustr ''QR001'')) = Some [9] \<and>
   server server_up (requests both_world) (QR_BASE_URL (ustr ''QR001'')) = Body [137, 80, 78, 71] \<and>
   get_qr_image server_up both_world (ustr ''QR001'') Cache (ustr ''qrs'') False =
     (Inr [1, 2, 3], both_world) \<and>
   requests both_world = []"
  by (simp add: world_eval)

theorem both_entries_valid_wins_witness:
  "get_qr_image server_up both_world (ustr ''QR001'') Cache (ustr ''qrs'') False =
     (Inr [1, 2, 3], both_world) \<and>
   map_of (files (snd (get_qr_image server_up both_world (ustr ''QR001'') Cache (ustr ''qrs'')
     False))) (local_path (ustr ''qrs'') (ustr ''QR001'')) = Some [9]"
proof -
  have a: "\<not> os_path_isfile both_world (ustr ''QR001'')"
    by (simp add: world_eval)
  have b: "codigo_url (ustr ''QR001'') = (ustr ''QR001'', QR_BASE_URL (ustr ''QR001''))"
    by (simp add: codigo_url_def startswith_def ustr_simps)
  have c: "ensure_dir both_world Cache (ustr ''qrs'') = Inr both_world"
    by (simp add: world_eval)
  have d: "map_of (files both_world) (valid_path (ustr ''qrs'') (ustr ''QR001'')) = Some [1, 2, 3]"
    by (simp add: world_eval)
  have f: "map_of (files both_world) (local_path (ustr ''qrs'') (ustr ''QR001'')) = Some [9]"
    by (simp add: world_eval)
  have g: "fst (download_qr_from_url server_up both_world (QR_BASE_URL (ustr ''QR001''))
             MAX_RETRIES) = Inr (Some [137, 80, 78, 71])"
    by (simp add: MAX_RETRIES_def numeral_2_eq_2 http_get_def server_up_def)
  have h: "[137, 80, 78, 71] \<noteq> ([] :: bytes)"
    by simp
  have i: "\<not> endswith (ustr ''QR001'') (ustr ''_local'')"
    by (simp add: endswith_def ustr_simps)
  have r: "refusal both_world (valid_path (ustr ''qrs'') (ustr ''QR001'')) = None"
    by (simp add: world_eval)
  note t = both_entries_valid_wins [OF a b c d f g h, of False]
  from conjunct1 [OF t] i r
  have 1: "get_qr_image server_up both_world (ustr ''QR001'') Cache (ustr ''qrs'') False =
     (Inr [1, 2, 3], both_world)"
    by simp
  from conjunct2 [OF conjunct2 [OF conjunct2 [OF t]]]
  have 2: "map_of (files (snd (get_qr_image server_up both_world (ustr ''QR001'') Cache (ustr ''qrs'')
     False))) (local_path (ustr ''qrs'') (ustr ''QR001'')) = Some [9]" .
  from 1 2 show ?thesis ..
qed

section \<open>The resolver: what is written where\<close>




section \<open>Prefetching\<close>

lemma fetch_single_eq:
  "fetch_single e w c strat d af =
     ((c, case fst (get_qr_image e w c strat d af) of
            Inl err \<Rightarrow> Inl (str_exc err) | Inr b \<Rightarrow> Inr b),
      snd (get_qr_image e w c strat d af))"
  by (cases "get_qr_image e w c strat d af") (auto simp: fetch_single_def split: sum.splits)


lemma prefetch_loop_world:
  "snd (prefetch_loop e w codes strat d af res) = snd (prefetch_loop e w codes strat d af res')"
  by (induction codes arbitrary: w res res') (simp_all add: fetch_single_eq)






section \<open>Cleaning the cache\<close>

lemma unlink_cases:
  "(\<exists>err. unlink w p = Inl err \<and> (refusal w p \<noteq> None \<or> map_of (files w) p = None)) \<or>
   (refusal w p = None \<and> map_of (files w) p \<noteq> None \<and>
    unlink w p = Inr (w\<lparr>files := AList.delete p (files w)\<rparr>))"
  by (auto simp: unlink_def split: option.splits)

lemma clean_loop_world:
  "clean_loop now stat age w ps n = (Inr m, w') \<Longrightarrow>
   w' = w\<lparr>files := filter (\<lambda>(k, v). \<not> (k \<in> set ps \<and> (\<exists>mt. stat k = Inr mt \<and> now - mt > age) \<and>
                                      refusal w k = None)) (files w)\<rparr> \<and>
   (\<forall>p\<in>set ps. \<exists>mt. stat p = Inr mt)"
proof (induction ps arbitrary: w n)
  case Nil
  then show ?case by simp
next
  case (Cons p ps)
  let ?old = "\<lambda>k. \<exists>mt. stat k = Inr mt \<and> now - mt > age"
  let ?Q = "\<lambda>w qs. (\<lambda>(k, v). \<not> (k \<in> set qs \<and> ?old k \<and> refusal w k = None))"
  from Cons.prems obtain mt where mt: "stat p = Inr mt"
    by (cases "stat p") auto
  show ?case
  proof (cases "now - mt > age \<and> refusal w p = None \<and> map_of (files w) p \<noteq> None")
    case True
    let ?w = "w\<lparr>files := AList.delete p (files w)\<rparr>"
    have rf: "refusal ?w k = refusal w k" for k
      by (simp add: refusal_def)
    from True have "unlink w p = Inr ?w"
      by (auto simp: unlink_def)
    with Cons.prems mt True have "clean_loop now stat age ?w ps (n + 1) = (Inr m, w')"
      by simp
    from Cons.IH [OF this]
    have w': "w' = ?w\<lparr>files := filter (?Q ?w ps) (files ?w)\<rparr>"
      and st: "\<forall>p\<in>set ps. \<exists>mt. stat p = Inr mt"
      by simp_all
    have "filter (?Q ?w ps) (files ?w) =
          filter (\<lambda>x. fst x \<noteq> p \<and> ?Q ?w ps x) (files w)"
      by (simp add: AList.delete_eq case_prod_beta conj_commute neq_commute)
    also have "\<dots> = filter (?Q w (p # ps)) (files w)"
    proof (rule filter_cong [OF refl])
      fix x assume "x \<in> set (files w)"
      obtain k v where kv: "x = (k, v)" by (cases x)
      show "(fst x \<noteq> p \<and> ?Q ?w ps x) = ?Q w (p # ps) x"
        unfolding kv using True mt by (auto simp: rf)
    qed
    finally have "files w' = filter (?Q w (p # ps)) (files w)"
      by (simp add: w')
    with w' st mt show ?thesis
      by simp
  next
    case False
    then have "now - mt > age \<Longrightarrow> \<exists>err. unlink w p = Inl err"
      by (auto simp: unlink_def split: option.splits)
    with Cons.prems mt have "clean_loop now stat age w ps n = (Inr m, w')"
      by (cases "now - mt > age") auto
    from Cons.IH [OF this]
    have w': "w' = w\<lparr>files := filter (?Q w ps) (files w)\<rparr>"
      and st: "\<forall>p\<in>set ps. \<exists>mt. stat p = Inr mt"
      by simp_all
    have "filter (?Q w ps) (files w) = filter (?Q w (p # ps)) (files w)"
    proof (rule filter_cong [OF refl])
      fix x assume x: "x \<in> set (files w)"
      obtain k v where kv: "x = (k, v)" by (cases x)
      with x have "map_of (files w) k \<noteq> None"
        by (auto simp: map_of_eq_None_iff intro: rev_image_eqI)
      with False kv mt show "?Q w ps x = ?Q w (p # ps) x"
        by auto
    qed
    with w' st mt show ?thesis
      by simp
  qed
qed

lemma clean_loop_noop:
  "\<forall>p\<in>set ps. \<exists>mt. stat p = Inr mt \<and>
      (now - mt > age \<longrightarrow> refusal w p \<noteq> None \<or> map_of (files w) p = None) \<Longrightarrow>
   clean_loop now stat age w ps n = (Inr n, w)"
proof (induction ps arbitrary: n)
  case Nil
  show ?case by simp
next
  case (Cons p ps)
  then obtain mt where mt: "stat p = Inr mt"
    and un: "now - mt > age \<longrightarrow> refusal w p \<noteq> None \<or> map_of (files w) p = None"
    by auto
  from un have "now - mt > age \<Longrightarrow> \<exists>err. unlink w p = Inl err"
    by (auto simp: unlink_def split: option.splits)
  moreover have "clean_loop now stat age w ps n = (Inr n, w)"
    using Cons.prems by (intro Cons.IH) simp
  ultimately show ?case
    using mt by (cases "now - mt > age") auto
qed

text \<open>
  Claim C9, as the code has it.  Let a first run of \<open>clean_cache\<close>, which reads the
  clock at \<open>now\<close>, return, and let a second run, on the world that the first left and
  with the same threshold, read the clock at \<open>now2\<close>.  If no \<open>*.png\<close> entry of the
  directory is older than the threshold at \<open>now2\<close> without being so at \<open>now\<close>, the
  second run deletes nothing and returns \<open>0\<close>.
\<close>

theorem clean_cache_idempotent:
  assumes "clean_cache now stat w qrs_dir max_age_days = (Inr n, w1)"
    and "\<forall>p\<in>set (glob_png w qrs_dir). \<forall>mt. stat p = Inr mt \<and>
            now2 - mt > of_int (max_age_days * 24 * 60 * 60) \<longrightarrow>
            now - mt > of_int (max_age_days * 24 * 60 * 60)"
  shows "clean_cache now2 stat w1 qrs_dir max_age_days = (Inr 0, w1)"
proof (cases "os_path_exists w qrs_dir \<and> os_path_exists w1 qrs_dir")
  case False
  with assms(1) show ?thesis
    by (auto simp: clean_cache_def)
next
  case True
  let ?age = "of_int (max_age_days * 24 * 60 * 60) :: real"
  let ?ps = "glob_png w qrs_dir"
  from assms(1) True have "clean_loop now stat ?age w ?ps 0 = (Inr n, w1)"
    by (simp add: clean_cache_def)
  from clean_loop_world [OF this]
  have w1: "w1 = w\<lparr>files := filter (\<lambda>(k, v). \<not> (k \<in> set ?ps \<and>
                (\<exists>mt. stat k = Inr mt \<and> now - mt > ?age) \<and> refusal w k = None)) (files w)\<rparr>"
    and st: "\<forall>p\<in>set ?ps. \<exists>mt. stat p = Inr mt"
    by simp_all
  have rf: "refusal w1 k = refusal w k" for k
    by (simp add: w1 refusal_def)
  have sub: "set (glob_png w1 qrs_dir) \<subseteq> set ?ps"
    by (auto simp: glob_png_def os_path_isdir_def w1)
  have "\<forall>p\<in>set (glob_png w1 qrs_dir). \<exists>mt. stat p = Inr mt \<and>
          (now2 - mt > ?age \<longrightarrow> refusal w1 p \<noteq> None \<or> map_of (files w1) p = None)"
  proof
    fix p assume p: "p \<in> set (glob_png w1 qrs_dir)"
    with sub have in_ps: "p \<in> set ?ps" by blast
    with st obtain mt where mt: "stat p = Inr mt" by blast
    have "refusal w1 p \<noteq> None \<or> map_of (files w1) p = None" if old2: "now2 - mt > ?age"
    proof (rule ccontr)
      assume "\<not> ?thesis"
      then have nr: "refusal w p = None" and f: "map_of (files w1) p \<noteq> None"
        by (simp_all add: rf)
      from f obtain v where "(p, v) \<in> set (files w1)"
        by (auto dest: map_of_SomeD)
      then have keep: "\<not> (p \<in> set ?ps \<and> (\<exists>mt. stat p = Inr mt \<and> now - mt > ?age) \<and>
                          refusal w p = None)"
        by (auto simp: w1)
      from assms(2) in_ps mt old2 have "now - mt > ?age"
        by blast
      with keep in_ps mt nr show False by blast
    qed
    with mt show "\<exists>mt. stat p = Inr mt \<and>
          (now2 - mt > ?age \<longrightarrow> refusal w1 p \<noteq> None \<or> map_of (files w1) p = None)"
      by blast
  qed
  then have "clean_loop now2 stat ?age w1 (glob_png w1 qrs_dir) 0 = (Inr 0, w1)"
    by (rule clean_loop_noop)
  with True show ?thesis
    by (simp add: clean_cache_def [of now2 stat w1])
qed

lemmas clean_eval =
  clean_cache_def os_path_exists_def os_path_isfile_def os_path_isdir_def unrepresentable_def
  refusal_def glob_png_def is_png_in_def dir_prefix_def startswith_def endswith_def unlink_def
  stat_mtime_def Let_def ustr_simps empty_world_def aged_world_def swept_world_def
  edge_world_def link_world_def

text \<open>
  Without these conditions the claim fails.  Where \<open>stat\<close> raises for an entry (a
  link \<open>link.png\<close> whose target is gone), every run ends with that exception and
  returns nothing.  And an entry whose age is exactly the threshold at the first
  reading of the clock is kept by the first run and deleted by the second, one second
  later, which returns \<open>1\<close>.
\<close>

theorem clean_cache_idempotent_counterexample:
  "clean_cache 3000000 stat_mtime link_world (ustr ''qrs'') 30 =
     (Inl (Library (OSError (ustr ''No such file or directory''))), link_world) \<and>
   clean_cache 3000001 stat_mtime link_world (ustr ''qrs'') 30 =
     (Inl (Library (OSError (ustr ''No such file or directory''))), link_world) \<and>
   clean_cache 3000000 stat_mtime edge_world (ustr ''qrs'') 30 =
     (Inr 1, edge_world\<lparr>files := [(ustr ''qrs/edge.png'', [2])]\<rparr>) \<and>
   clean_cache 3000001 stat_mtime (edge_world\<lparr>files := [(ustr ''qrs/edge.png'', [2])]\<rparr>)
     (ustr ''qrs'') 30 = (Inr 1, edge_world\<lparr>files := []\<rparr>)"
  by (simp add: clean_eval)

theorem clean_cache_idempotent_witness:
  "clean_cache 3000000 stat_mtime aged_world (ustr ''qrs'') 30 = (Inr 2, swept_world) \<and>
   clean_cache 3000060 stat_mtime swept_world (ustr ''qrs'') 30 = (Inr 0, swept_world)"
proof -
  have 1: "clean_cache 3000000 stat_mtime aged_world (ustr ''qrs'') 30 = (Inr 2, swept_world)"
    by (simp add: clean_eval)
  have g: "glob_png aged_world (ustr ''qrs'') =
      [ustr ''qrs/old.png'', ustr ''qrs/new.png'', ustr ''qrs/old_local.png'']"
    by (simp add: clean_eval)
  have 2: "\<forall>p\<in>set (glob_png aged_world (ustr ''qrs'')). \<forall>mt. stat_mtime p = Inr mt \<and>
            3000060 - mt > of_int (30 * 24 * 60 * 60) \<longrightarrow>
            3000000 - mt > of_int (30 * 24 * 60 * 60)"
    unfolding g by (simp add: stat_mtime_def ustr_simps)
  from clean_cache_idempotent [OF 1 2]
  have "clean_cache 3000060 stat_mtime swept_world (ustr ''qrs'') 30 = (Inr 0, swept_world)" .
  with 1 show ?thesis ..
qed

section \<open>Boolean parsing\<close>












section \<open>Row validation\<close>

lemma sublist_suffix_part: "sublist x zs \<Longrightarrow> sublist x (ys @ zs)"
  by (simp add: sublist_append)

lemma sublist_py_join: "x \<in> set xs \<Longrightarrow> sublist x (py_join sep xs)"
proof (induction sep xs rule: py_join.induct)
  case (1 sep)
  then show ?case by simp
next
  case (2 sep y)
  then show ?case by simp
next
  case (3 sep y z zs)
  show ?case
  proof (cases "x = y")
    case True
    then show ?thesis by simp
  next
    case False
    with 3 have "sublist x (py_join sep (z # zs))" by simp
    then have "sublist x ((y @ sep) @ py_join sep (z # zs))"
      by (rule sublist_suffix_part)
    then show ?thesis by simp
  qed
qed

lemma validate_row_Some:
  "validate_row r i = Some msg \<Longrightarrow>
   row_errors r \<noteq> [] \<and>
   msg = ustr ''Fila '' @ str_int (i + 2) @ ustr '': '' @ py_join (ustr ''; '') (row_errors r)"
  by (auto simp: validate_row_def Let_def split: if_splits)

lemma rule_in_message:
  assumes "validate_row r i = Some msg" and "x \<in> set (row_errors r)"
  shows "sublist x msg"
proof -
  from assms(1) have "msg = (ustr ''Fila '' @ str_int (i + 2) @ ustr '': '') @
      py_join (ustr ''; '') (row_errors r)"
    by (simp add: validate_row_Some)
  moreover have "sublist x (py_join (ustr ''; '') (row_errors r))"
    using assms(2) by (rule sublist_py_join)
  ultimately show ?thesis
    by (simp only: sublist_suffix_part)
qed

text \<open>
  Claim C8.  \<open>validate_row\<close> accepts a row exactly when none of its rules is
  violated.  Otherwise it returns one message, which starts with \<open>Fila\<close>, the row
  index plus 2 and a colon, continues with the texts of the violated rules joined by
  \<open>; \<close>, and so contains the text of every rule that the row violates.
\<close>

theorem validate_row_message:
  "((validate_row r row_index = None) =
      (\<not> field_empty r ''PrimerNombre'' \<and> \<not> field_empty r ''PrimerApellido'' \<and>
       \<not> field_empty r ''QR'' \<and>
       (truthy (row_get r ''LLevaConyugue'') \<longrightarrow>
          \<not> field_empty r ''PrimerNombreConyugue'' \<and>
          \<not> field_empty r ''PrimerApellidoConyugue'' \<and>
          \<not> field_empty r ''QR_Conyugue''))) \<and>
   (\<forall>msg. validate_row r row_index = Some msg \<longrightarrow>
      startswith msg (ustr ''Fila '' @ str_int (row_index + 2) @ ustr '': '') \<and>
      msg = ustr ''Fila '' @ str_int (row_index + 2) @ ustr '': '' @
            py_join (ustr ''; '') (row_errors r) \<and>
      (field_empty r ''PrimerNombre'' \<longrightarrow> sublist (ustr ''PrimerNombre'' @ vacio) msg) \<and>
      (field_empty r ''PrimerApellido'' \<longrightarrow> sublist (ustr ''PrimerApellido'' @ vacio) msg) \<and>
      (field_empty r ''QR'' \<longrightarrow> sublist (ustr ''QR'' @ vacio) msg) \<and>
      (truthy (row_get r ''LLevaConyugue'') \<and> field_empty r ''PrimerNombreConyugue'' \<longrightarrow>
         sublist (conyugue_msg ''PrimerNombreConyugue'') msg) \<and>
      (truthy (row_get r ''LLevaConyugue'') \<and> field_empty r ''PrimerApellidoConyugue'' \<longrightarrow>
         sublist (conyugue_msg ''PrimerApellidoConyugue'') msg) \<and>
      (truthy (row_get r ''LLevaConyugue'') \<and> field_empty r ''QR_Conyugue'' \<longrightarrow>
         sublist (conyugue_msg ''QR_Conyugue'') msg))"
proof (intro conjI allI impI)
  show "(validate_row r row_index = None) =
      (\<not> field_empty r ''PrimerNombre'' \<and> \<not> field_empty r ''PrimerApellido'' \<and>
       \<not> field_empty r ''QR'' \<and>
       (truthy (row_get r ''LLevaConyugue'') \<longrightarrow>
          \<not> field_empty r ''PrimerNombreConyugue'' \<and>
          \<not> field_empty r ''PrimerApellidoConyugue'' \<and>
          \<not> field_empty r ''QR_Conyugue''))"
    by (simp add: validate_row_def row_errors_def Let_def)
next
  fix msg assume m: "validate_row r row_index = Some msg"
  then show msg: "msg = ustr ''Fila '' @ str_int (row_index + 2) @ ustr '': '' @
            py_join (ustr ''; '') (row_errors r)"
    by (simp add: validate_row_Some)
  then show "startswith msg (ustr ''Fila '' @ str_int (row_index + 2) @ ustr '': '')"
    by (simp add: startswith_def)
  {
    assume "field_empty r ''PrimerNombre''"
    then have "ustr ''PrimerNombre'' @ vacio \<in> set (row_errors r)"
      by (simp add: row_errors_def)
    with m show "sublist (ustr ''PrimerNombre'' @ vacio) msg"
      by (rule rule_in_message)
  }
  {
    assume "field_empty r ''PrimerApellido''"
    then have "ustr ''PrimerApellido'' @ vacio \<in> set (row_errors r)"
      by (simp add: row_errors_def)
    with m show "sublist (ustr ''PrimerApellido'' @ vacio) msg"
      by (rule rule_in_message)
  }
  {
    assume "field_empty r ''QR''"
    then have "ustr ''QR'' @ vacio \<in> set (row_errors r)"
      by (simp add: row_errors_def)
    with m show "sublist (ustr ''QR'' @ vacio) msg"
      by (rule rule_in_message)
  }
  {
    assume "truthy (row_get r ''LLevaConyugue'') \<and> field_empty r ''PrimerNombreConyugue''"
    then have "conyugue_msg ''PrimerNombreConyugue'' \<in> set (row_errors r)"
      by (simp add: row_errors_def)
    with m show "sublist (conyugue_msg ''PrimerNombreConyugue'') msg"
      by (rule rule_in_message)
  }
  {
    assume "truthy (row_get r ''LLevaConyugue'') \<and> field_empty r ''PrimerApellidoConyugue''"
    then have "conyugue_msg ''PrimerApellidoConyugue'' \<in> set (row_errors r)"
      by (simp add: row_errors_def)
    with m show "sublist (conyugue_msg ''PrimerApellidoConyugue'') msg"
      by (rule rule_in_message)
  }
  {
    assume "truthy (row_get r ''LLevaConyugue'') \<and> field_empty r ''QR_Conyugue''"
    then have "conyugue_msg ''QR_Conyugue'' \<in> set (row_errors r)"
      by (simp add: row_errors_def)
    with m show "sublist (conyugue_msg ''QR_Conyugue'') msg"
      by (rule rule_in_message)
  }
qed

lemmas row_eval =
  validate_row_def row_errors_def field_empty_def row_get_def vacio_def conyugue_msg_def
  str_int_def str_nat.simps ustr_simps Let_def

theorem validate_row_message_witness:
  "validate_row garcia_row 0 =
     Some (ustr ''Fila 2: PrimerNombre vac'' @ [237] @ ustr ''o'') \<and>
   validate_row lonely_row 41 =
     Some (ustr ''Fila 43: PrimerNombre vac'' @ [237] @ ustr ''o; QR vac'' @ [237] @
           ustr ''o; LLevaConyugue=True pero PrimerApellidoConyugue vac'' @ [237] @
           ustr ''o; LLevaConyugue=True pero QR_Conyugue vac'' @ [237] @ ustr ''o'') \<and>
   sublist (conyugue_msg ''QR_Conyugue'') (the (validate_row lonely_row 41))"
proof -
  have 1: "validate_row garcia_row 0 =
     Some (ustr ''Fila 2: PrimerNombre vac'' @ [237] @ ustr ''o'')"
    by (simp add: garcia_row_def row_eval)
  have 2: "validate_row lonely_row 41 =
     Some (ustr ''Fila 43: PrimerNombre vac'' @ [237] @ ustr ''o; QR vac'' @ [237] @
           ustr ''o; LLevaConyugue=True pero PrimerApellidoConyugue vac'' @ [237] @
           ustr ''o; LLevaConyugue=True pero QR_Conyugue vac'' @ [237] @ ustr ''o'')"
    by (simp add: lonely_row_def row_eval)
  have 3: "truthy (row_get lonely_row ''LLevaConyugue'') \<and> field_empty lonely_row ''QR_Conyugue''"
    by (simp add: lonely_row_def row_eval)
  have m: "validate_row lonely_row 41 = Some (the (validate_row lonely_row 41))"
    using 2 by simp
  from validate_row_message [of lonely_row 41] m 3
  have "sublist (conyugue_msg ''QR_Conyugue'') (the (validate_row lonely_row 41))"
    by blast
  with 1 2 show ?thesis by blast
qed

lemma attendees_from_valid:
  "a \<in> set (attendees_from U idx rows) \<Longrightarrow>
   \<exists>raw i. a = make_entry U raw \<and> validate_row a i = None"
proof (induction rows arbitrary: idx)
  case Nil
  then show ?case by simp
next
  case (Cons raw rows)
  show ?case
  proof (cases "validate_row (make_entry U raw) idx")
    case None
    with Cons.prems have "a = make_entry U raw \<or> a \<in> set (attendees_from U (idx + 1) rows)"
      by (simp add: Let_def)
    with None Cons.IH show ?thesis by blast
  next
    case (Some msg)
    with Cons.prems have "a \<in> set (attendees_from U (idx + 1) rows)"
      by (simp add: Let_def)
    with Cons.IH show ?thesis by blast
  qed
qed

lemma str_or_empty_PyStr: "\<exists>s. str_or_empty v = PyStr s"
  by (simp add: str_or_empty_def)

lemma make_entry_lookup:
  "make_entry U raw ''PrimerNombre'' = Some (str_or_empty (raw ''PrimerNombre''))"
  "make_entry U raw ''PrimerApellido'' = Some (str_or_empty (raw ''PrimerApellido''))"
  "make_entry U raw ''QR'' = Some (str_or_empty (raw ''QR''))"
  "make_entry U raw ''LLevaConyugue'' = Some (PyBool (parse_boolean U (raw ''LLevaConyugue'')))"
  "make_entry U raw ''PrimerNombreConyugue'' = Some (str_or_empty (raw ''PrimerNombreConyugue''))"
  "make_entry U raw ''PrimerApellidoConyugue'' = Some (str_or_empty (raw ''PrimerApellidoConyugue''))"
  "make_entry U raw ''QR_Conyugue'' = Some (str_or_empty (raw ''QR_Conyugue''))"
  by (simp_all add: make_entry_def)

lemma filled_PyStr:
  "r k = Some (str_or_empty v) \<Longrightarrow> \<not> field_empty r k \<Longrightarrow> \<exists>s. r k = Some (PyStr s) \<and> s \<noteq> []"
  by (auto simp: field_empty_def row_get_def str_or_empty_def split: if_splits)

text \<open>
  Claim C6.  Every record that \<open>read_attendees\<close> returns has a non-empty first
  name, last name and QR identifier, and a boolean has-companion field; if that
  field is true, the companion's first name, last name and QR identifier are
  non-empty too.  And \<open>validate_row\<close> rejects every row whose has-companion field is
  true and whose companion QR identifier is empty or missing, whatever its other
  fields and its index are.
\<close>

theorem read_attendees_invariant:
  "(\<forall>a\<in>set (read_attendees U rows).
      (\<exists>s. a ''PrimerNombre'' = Some (PyStr s) \<and> s \<noteq> []) \<and>
      (\<exists>s. a ''PrimerApellido'' = Some (PyStr s) \<and> s \<noteq> []) \<and>
      (\<exists>s. a ''QR'' = Some (PyStr s) \<and> s \<noteq> []) \<and>
      (\<exists>b. a ''LLevaConyugue'' = Some (PyBool b) \<and>
           (b \<longrightarrow>
              (\<exists>s. a ''PrimerNombreConyugue'' = Some (PyStr s) \<and> s \<noteq> []) \<and>
              (\<exists>s. a ''PrimerApellidoConyugue'' = Some (PyStr s) \<and> s \<noteq> []) \<and>
              (\<exists>s. a ''QR_Conyugue'' = Some (PyStr s) \<and> s \<noteq> [])))) \<and>
   (\<forall>r row_index.
      row_get r ''LLevaConyugue'' = PyBool True \<and>
      row_get r ''QR_Conyugue'' \<in> {PyStr [], PyNone, NaN} \<longrightarrow>
        validate_row r row_index \<noteq> None)"
proof (intro conjI ballI allI impI)
  fix a assume "a \<in> set (read_attendees U rows)"
  then obtain raw i where a: "a = make_entry U raw" and v: "validate_row a i = None"
    unfolding read_attendees_def by (blast dest: attendees_from_valid)
  from v have ok:
    "\<not> field_empty a ''PrimerNombre''" "\<not> field_empty a ''PrimerApellido''"
    "\<not> field_empty a ''QR''"
    "truthy (row_get a ''LLevaConyugue'') \<longrightarrow>
       \<not> field_empty a ''PrimerNombreConyugue'' \<and> \<not> field_empty a ''PrimerApellidoConyugue'' \<and>
       \<not> field_empty a ''QR_Conyugue''"
    by (simp_all add: validate_row_def row_errors_def Let_def split: if_splits)
  show "\<exists>s. a ''PrimerNombre'' = Some (PyStr s) \<and> s \<noteq> []"
    using ok(1) by (intro filled_PyStr) (simp_all add: a make_entry_lookup)
  show "\<exists>s. a ''PrimerApellido'' = Some (PyStr s) \<and> s \<noteq> []"
    using ok(2) by (intro filled_PyStr) (simp_all add: a make_entry_lookup)
  show "\<exists>s. a ''QR'' = Some (PyStr s) \<and> s \<noteq> []"
    using ok(3) by (intro filled_PyStr) (simp_all add: a make_entry_lookup)
  let ?b = "parse_boolean U (raw ''LLevaConyugue'')"
  have b: "a ''LLevaConyugue'' = Some (PyBool ?b)"
    by (simp add: a make_entry_lookup)
  have "?b \<longrightarrow>
          (\<exists>s. a ''PrimerNombreConyugue'' = Some (PyStr s) \<and> s \<noteq> []) \<and>
          (\<exists>s. a ''PrimerApellidoConyugue'' = Some (PyStr s) \<and> s \<noteq> []) \<and>
          (\<exists>s. a ''QR_Conyugue'' = Some (PyStr s) \<and> s \<noteq> [])"
  proof
    assume ?b
    with b have "truthy (row_get a ''LLevaConyugue'')"
      by (simp add: row_get_def)
    with ok(4) have e: "\<not> field_empty a ''PrimerNombreConyugue''"
      "\<not> field_empty a ''PrimerApellidoConyugue''" "\<not> field_empty a ''QR_Conyugue''"
      by simp_all
    have "\<exists>s. a ''PrimerNombreConyugue'' = Some (PyStr s) \<and> s \<noteq> []"
      using e(1) by (intro filled_PyStr) (simp_all add: a make_entry_lookup)
    moreover have "\<exists>s. a ''PrimerApellidoConyugue'' = Some (PyStr s) \<and> s \<noteq> []"
      using e(2) by (intro filled_PyStr) (simp_all add: a make_entry_lookup)
    moreover have "\<exists>s. a ''QR_Conyugue'' = Some (PyStr s) \<and> s \<noteq> []"
      using e(3) by (intro filled_PyStr) (simp_all add: a make_entry_lookup)
    ultimately show "(\<exists>s. a ''PrimerNombreConyugue'' = Some (PyStr s) \<and> s \<noteq> []) \<and>
          (\<exists>s. a ''PrimerApellidoConyugue'' = Some (PyStr s) \<and> s \<noteq> []) \<and>
          (\<exists>s. a ''QR_Conyugue'' = Some (PyStr s) \<and> s \<noteq> [])"
      by blast
  qed
  with b show "\<exists>b. a ''LLevaConyugue'' = Some (PyBool b) \<and>
           (b \<longrightarrow>
              (\<exists>s. a ''PrimerNombreConyugue'' = Some (PyStr s) \<and> s \<noteq> []) \<and>
              (\<exists>s. a ''PrimerApellidoConyugue'' = Some (PyStr s) \<and> s \<noteq> []) \<and>
              (\<exists>s. a ''QR_Conyugue'' = Some (PyStr s) \<and> s \<noteq> []))"
    by blast
next
  fix r row_index
  assume h: "row_get r ''LLevaConyugue'' = PyBool True \<and>
      row_get r ''QR_Conyugue'' \<in> {PyStr [], PyNone, NaN}"
  then have "field_empty r ''QR_Conyugue''"
    by (auto simp: field_empty_def)
  with h have "conyugue_msg ''QR_Conyugue'' \<in> set (row_errors r)"
    by (simp add: row_errors_def)
  then have "row_errors r \<noteq> []"
    by auto
  then show "validate_row r row_index \<noteq> None"
    by (simp add: validate_row_def Let_def)
qed

lemmas entry_eval =
  make_entry_def str_or_empty_def sheet_row_def row_eval parse_boolean_def py_strip_def
  py_isspace_def py_upper_def upper_cp_def TRUE_VALUES_def

theorem read_attendees_invariant_witness:
  "read_attendees (\<lambda>c. [c]) [juan, ana] = [make_entry (\<lambda>c. [c]) juan] \<and>
   make_entry (\<lambda>c. [c]) juan ''LLevaConyugue'' = Some (PyBool True) \<and>
   (\<exists>s. make_entry (\<lambda>c. [c]) juan ''QR_Conyugue'' = Some (PyStr s) \<and> s \<noteq> []) \<and>
   make_entry (\<lambda>c. [c]) ana ''LLevaConyugue'' = Some (PyBool True) \<and>
   make_entry (\<lambda>c. [c]) ana ''QR_Conyugue'' = Some (PyStr []) \<and>
   validate_row (make_entry (\<lambda>c. [c]) ana) 1 \<noteq> None"
proof -
  let ?U = "\<lambda>c::nat. [c]"
  have v1: "validate_row (make_entry ?U juan) 0 = None"
    by (simp add: juan_def entry_eval)
  have v2: "validate_row (make_entry ?U ana) 1 \<noteq> None"
    by (simp add: ana_def entry_eval)
  have r: "read_attendees ?U [juan, ana] = [make_entry ?U juan]"
    using v1 v2 by (auto simp: read_attendees_def Let_def split: option.splits)
  have b1: "make_entry ?U juan ''LLevaConyugue'' = Some (PyBool True)"
    by (simp add: juan_def entry_eval)
  have b2: "make_entry ?U ana ''LLevaConyugue'' = Some (PyBool True)"
    "make_entry ?U ana ''QR_Conyugue'' = Some (PyStr [])"
    by (simp_all add: ana_def entry_eval)
  have g: "row_get (make_entry ?U ana) ''LLevaConyugue'' = PyBool True \<and>
           row_get (make_entry ?U ana) ''QR_Conyugue'' \<in> {PyStr [], PyNone, NaN}"
    by (simp add: b2 row_get_def)
  note t = read_attendees_invariant [of ?U "[juan, ana]"]
  have mem: "make_entry ?U juan \<in> set (read_attendees ?U [juan, ana])"
    by (simp add: r)
  note j = bspec [OF conjunct1 [OF t] mem, THEN conjunct2, THEN conjunct2, THEN conjunct2]
  from j obtain b where b: "make_entry ?U juan ''LLevaConyugue'' = Some (PyBool b)"
    and c: "b \<longrightarrow> (\<exists>s. make_entry ?U juan ''QR_Conyugue'' = Some (PyStr s) \<and> s \<noteq> [])"
    by blast
  from b b1 have "b" by simp
  with c have 1: "\<exists>s. make_entry ?U juan ''QR_Conyugue'' = Some (PyStr s) \<and> s \<noteq> []"
    by blast
  from conjunct2 [OF t] g have 2: "validate_row (make_entry ?U ana) 1 \<noteq> None"
    by blast
  from r b1 1 b2 2 show ?thesis by blast
qed

end
